theory Spec2Isabelle
  imports Complex_Main "HOL-Library.Word" "HOL-Library.Multiset" "HOL-Library.List_Lexorder"
    "HOL-Library.Product_Lexorder"
begin

section \<open>JavaScript values of the Edge Function\<close>

text \<open>
  A JavaScript string is a sequence of UTF-16 code units. String literals of the source
  are written with \<open>js\<close>, which maps each character to its code unit.
\<close>

type_synonym jstring = "16 word list"

definition js :: "string \<Rightarrow> jstring" where
  "js s = map of_char s"

text \<open>
  A JavaScript number as \<open>JSON.parse\<close> can give it: a finite double, held as the rational
  it is exactly, or an infinity, which is how a literal beyond the range of the doubles
  (such as \<open>1e400\<close>) is read. No JSON text is read as NaN.
\<close>

datatype number = Finite rat | PlusInfinity | MinusInfinity

text \<open>
  What \<open>req.json()\<close> yields: a parsed JSON value. An object is the list of its own
  properties, the first entry of a name being the property of that name.
\<close>

datatype json =
    JNull
  | JBool bool
  | JNum number
  | JStr jstring
  | JArr "json list"
  | JObj "(jstring \<times> json) list"

text \<open>
  \<open>body[field]\<close>: \<open>None\<close> is JavaScript's \<open>undefined\<close>. None of the property names
  the handler reads exists on the prototype of a string, number, boolean or array, so
  the lookup is \<open>undefined\<close> on every value but an object. On \<open>null\<close> the lookup
  throws a TypeError; the handler tests for that case before it calls \<open>get_prop\<close>.
\<close>

fun get_prop :: "json \<Rightarrow> jstring \<Rightarrow> json option" where
  "get_prop (JObj kvs) k = map_of kvs k"
| "get_prop _ k = None"

text \<open>\<open>!v\<close> is \<open>\<not> truthy v\<close>.\<close>

fun truthy :: "json option \<Rightarrow> bool" where
  "truthy None = False"
| "truthy (Some JNull) = False"
| "truthy (Some (JBool b)) = b"
| "truthy (Some (JNum x)) = (x \<noteq> Finite 0)"
| "truthy (Some (JStr s)) = (s \<noteq> [])"
| "truthy (Some (JArr xs)) = True"
| "truthy (Some (JObj kvs)) = True"

fun typeof :: "json option \<Rightarrow> string" where
  "typeof None = ''undefined''"
| "typeof (Some JNull) = ''object''"
| "typeof (Some (JBool b)) = ''boolean''"
| "typeof (Some (JNum x)) = ''number''"
| "typeof (Some (JStr s)) = ''string''"
| "typeof (Some (JArr xs)) = ''object''"
| "typeof (Some (JObj kvs)) = ''object''"

text \<open>\<open>v ?? null\<close>\<close>

fun or_null :: "json option \<Rightarrow> json" where
  "or_null None = JNull"
| "or_null (Some v) = v"

text \<open>
  The code units that \<open>String.prototype.trim\<close> strips: ECMAScript's WhiteSpace and
  LineTerminator.
\<close>

definition is_js_whitespace :: "16 word \<Rightarrow> bool" where
  "is_js_whitespace c =
     (c = 0x0009 \<or> c = 0x000A \<or> c = 0x000B \<or> c = 0x000C \<or> c = 0x000D \<or> c = 0x0020
      \<or> c = 0x00A0 \<or> c = 0x1680 \<or> (0x2000 \<le> c \<and> c \<le> 0x200A)
      \<or> c = 0x2028 \<or> c = 0x2029 \<or> c = 0x202F \<or> c = 0x205F \<or> c = 0x3000
      \<or> c = 0xFEFF)"

definition js_trim :: "jstring \<Rightarrow> jstring" where
  "js_trim s = rev (dropWhile is_js_whitespace (rev (dropWhile is_js_whitespace s)))"

text \<open>
  \<open>String.prototype.toLowerCase\<close> on the ASCII letters. The handler applies it only to
  a string that matched \<open>UUID_RE\<close>, which holds ASCII code units only.
\<close>

definition lower_unit :: "16 word \<Rightarrow> 16 word" where
  "lower_unit c = (if 0x41 \<le> c \<and> c \<le> 0x5A then c + 0x20 else c)"

definition toLowerCase :: "jstring \<Rightarrow> jstring" where
  "toLowerCase s = map lower_unit s"

text \<open>
  \<open>Math.round\<close>: the nearest integer, a tie going to the larger one; an infinity is
  returned as it is.
\<close>

fun Math_round :: "number \<Rightarrow> number" where
  "Math_round (Finite x) = Finite (of_int \<lfloor>x + 1 / 2\<rfloor>)"
| "Math_round PlusInfinity = PlusInfinity"
| "Math_round MinusInfinity = MinusInfinity"

text \<open>
  \<open>JSON.stringify\<close>, as the value that the text it writes denotes: an infinity is written
  as \<open>null\<close>, at any depth; every other value is written as itself.
\<close>

fun JSON_stringify :: "json \<Rightarrow> json" where
  "JSON_stringify (JNum (Finite x)) = JNum (Finite x)"
| "JSON_stringify (JNum PlusInfinity) = JNull"
| "JSON_stringify (JNum MinusInfinity) = JNull"
| "JSON_stringify (JArr xs) = JArr (map JSON_stringify xs)"
| "JSON_stringify (JObj kvs) = JObj (map (\<lambda>(k, v). (k, JSON_stringify v)) kvs)"
| "JSON_stringify JNull = JNull"
| "JSON_stringify (JBool b) = JBool b"
| "JSON_stringify (JStr s) = JStr s"

subsection \<open>The regular expression \<open>UUID_RE\<close>\<close>

text \<open>
  \<open>/^[0-9a-f]{8}-[0-9a-f]{4}-[0-9a-f]{4}-[0-9a-f]{4}-[0-9a-f]{12}$/i\<close>.
  Without the \<open>u\<close> flag, the \<open>i\<close> flag never maps a code unit of 128 or more to an
  ASCII one, so the class \<open>[0-9a-f]\<close> matches the ASCII hexadecimal digits of either
  case and nothing else. Without the \<open>m\<close> flag, \<open>$\<close> matches at the end of the input
  only.
\<close>

definition hex_class :: "16 word \<Rightarrow> bool" where
  "hex_class c = ((0x30 \<le> c \<and> c \<le> 0x39) \<or> (0x61 \<le> c \<and> c \<le> 0x66) \<or> (0x41 \<le> c \<and> c \<le> 0x46))"

text \<open>
  The pattern is a sequence of pieces, each \<open>[0-9a-f]{n}\<close> or the literal \<open>-\<close>; a piece
  consumes a prefix of the input and gives the rest. No piece has a choice of how much to
  consume, so matching needs no backtracking.
\<close>

datatype piece = Hex nat | Dash

fun match_hex :: "nat \<Rightarrow> jstring \<Rightarrow> jstring option" where
  "match_hex 0 s = Some s"
| "match_hex (Suc n) [] = None"
| "match_hex (Suc n) (c # s) = (if hex_class c then match_hex n s else None)"

fun match_dash :: "jstring \<Rightarrow> jstring option" where
  "match_dash [] = None"
| "match_dash (c # s) = (if c = 0x2D then Some s else None)"

fun match_pieces :: "piece list \<Rightarrow> jstring \<Rightarrow> jstring option" where
  "match_pieces [] s = Some s"
| "match_pieces (Hex n # ps) s =
     (case match_hex n s of None \<Rightarrow> None | Some r \<Rightarrow> match_pieces ps r)"
| "match_pieces (Dash # ps) s =
     (case match_dash s of None \<Rightarrow> None | Some r \<Rightarrow> match_pieces ps r)"

definition UUID_RE :: "piece list" where
  "UUID_RE = [Hex 8, Dash, Hex 4, Dash, Hex 4, Dash, Hex 4, Dash, Hex 12]"

text \<open>\<open>UUID_RE.test(s)\<close>: anchored at both ends.\<close>

definition UUID_RE_test :: "jstring \<Rightarrow> bool" where
  "UUID_RE_test s = (match_pieces UUID_RE s = Some [])"

section \<open>The tables of the migrations\<close>

text \<open>
  A \<open>UUID\<close> value is held as the text PostgreSQL prints for it: 36 code units, lowercase.
  A \<open>TIMESTAMPTZ\<close> is a number of microseconds. The columns \<open>scan_id\<close>, \<open>client_id\<close>
  and \<open>event_name\<close> hold what the Edge Function sends for them, \<open>JNull\<close> for SQL's
  \<open>NULL\<close>.
\<close>

type_synonym uuid = jstring
type_synonym timestamptz = int

record event =
  row_id :: uuid
  trace_id :: uuid
  scan_id :: json
  client_id :: json
  source :: jstring
  event_type :: jstring
  event_name :: json
  status :: jstring
  req :: json
  res :: json
  err :: json
  meta :: json
  duration_ms :: "int option"
  created_at :: timestamptz

record artifact =
  artifact_id :: uuid
  a_event_id :: uuid
  a_trace_id :: uuid
  artifact_type :: jstring
  content_type :: json
  storage_path :: json
  data :: json
  size_bytes :: "int option"
  a_created_at :: timestamptz

record database =
  sw_event_log :: "event list"
  sw_event_artifacts :: "artifact list"

text \<open>
  PostgreSQL reads a \<open>UUID\<close> from text without regard to case and prints it in lowercase.
  Only the hyphenated 8-4-4-4-12 spelling is read here, the one spelling the Edge Function
  lets through; \<open>None\<close> stands for any other text.
\<close>

definition uuid_in :: "jstring \<Rightarrow> uuid option" where
  "uuid_in s = (if UUID_RE_test s then Some (toLowerCase s) else None)"

text \<open>The range of an \<open>INTEGER\<close> column.\<close>

definition int4_range :: "int \<Rightarrow> bool" where
  "int4_range n = (- 2147483648 \<le> n \<and> n \<le> 2147483647)"

fun fits_int4 :: "int option \<Rightarrow> bool" where
  "fits_int4 None = True"
| "fits_int4 (Some n) = int4_range n"

subsection \<open>Roles, privileges and row level security\<close>

datatype db_role = anon | authenticated | service_role

datatype privilege = SELECT | INSERT | UPDATE | DELETE

text \<open>The claims of \<open>auth.jwt()\<close> that the policies read.\<close>

record jwt =
  claim_role :: "jstring option"
  app_metadata_role :: "jstring option"

record caller =
  role :: db_role
  token :: jwt

text \<open>
  The table privileges (\<open>GRANT\<close>) are set outside these migrations, so they are a
  parameter. A statement of a role without the privilege fails before any policy is
  looked at.
\<close>

type_synonym grants = "db_role \<Rightarrow> privilege \<Rightarrow> bool"

datatype pg_error =
    insufficient_privilege
  | unique_violation
  | foreign_key_violation
  | numeric_value_out_of_range
  | invalid_text_representation
  | untranslatable_character
  | invalid_authorization
  | connection_failure

fun pg_code :: "pg_error \<Rightarrow> string" where
  "pg_code insufficient_privilege = ''42501''"
| "pg_code unique_violation = ''23505''"
| "pg_code foreign_key_violation = ''23503''"
| "pg_code numeric_value_out_of_range = ''22003''"
| "pg_code invalid_text_representation = ''22P02''"
| "pg_code untranslatable_character = ''22P05''"
| "pg_code invalid_authorization = ''PGRST301''"
| "pg_code connection_failure = ''08006''"

fun pg_message :: "pg_error \<Rightarrow> string" where
  "pg_message insufficient_privilege = ''new row violates row-level security policy''"
| "pg_message unique_violation = ''duplicate key value violates unique constraint''"
| "pg_message foreign_key_violation = ''insert or update on table violates foreign key constraint''"
| "pg_message numeric_value_out_of_range = ''integer out of range''"
| "pg_message invalid_text_representation = ''invalid input syntax''"
| "pg_message untranslatable_character = ''unsupported Unicode escape sequence''"
| "pg_message invalid_authorization = ''JWSError JWSInvalidSignature''"
| "pg_message connection_failure = ''connection failure''"

subsection \<open>Values that a column refuses\<close>

text \<open>
  PostgreSQL refuses a text, and a string anywhere inside a JSON value it reads (a
  property name too), that holds the code unit U+0000 or a surrogate code unit without its
  partner.
\<close>

definition high_surrogate :: "16 word \<Rightarrow> bool" where
  "high_surrogate c = (0xD800 \<le> c \<and> c \<le> 0xDBFF)"

definition low_surrogate :: "16 word \<Rightarrow> bool" where
  "low_surrogate c = (0xDC00 \<le> c \<and> c \<le> 0xDFFF)"

fun well_paired :: "jstring \<Rightarrow> bool" where
  "well_paired [] = True"
| "well_paired [c] = (\<not> high_surrogate c \<and> \<not> low_surrogate c)"
| "well_paired (c # d # s) =
     (if high_surrogate c then low_surrogate d \<and> well_paired s
      else \<not> low_surrogate c \<and> well_paired (d # s))"

definition text_fault :: "jstring \<Rightarrow> pg_error option" where
  "text_fault s =
     (if 0 \<in> set s then Some untranslatable_character
      else if \<not> well_paired s then Some invalid_text_representation
      else None)"

text \<open>The first fault of a list of checks, if any.\<close>

fun first_fault :: "pg_error option list \<Rightarrow> pg_error option" where
  "first_fault [] = None"
| "first_fault (None # fs) = first_fault fs"
| "first_fault (Some e # fs) = Some e"

fun json_fault :: "json \<Rightarrow> pg_error option" where
  "json_fault (JStr s) = text_fault s"
| "json_fault (JArr xs) = first_fault (map json_fault xs)"
| "json_fault (JObj kvs) = first_fault (map (\<lambda>(k, v). first_fault [text_fault k, json_fault v]) kvs)"
| "json_fault JNull = None"
| "json_fault (JBool b) = None"
| "json_fault (JNum x) = None"

text \<open>
  A JSON number for an \<open>INTEGER\<close> column is read from its text: a number with a fraction,
  one written with an exponent (\<open>JSON.stringify\<close> writes one from \<open>1e21\<close> on) and an
  infinity are no integer texts; an integer out of the range of the column is refused as
  such. \<open>None\<close> is \<open>NULL\<close>.
\<close>

fun int4_fault :: "number option \<Rightarrow> pg_error option" where
  "int4_fault None = None"
| "int4_fault (Some (Finite x)) =
     (if of_int \<lfloor>x\<rfloor> \<noteq> x \<or> 10 ^ 21 \<le> \<bar>x\<bar> then Some invalid_text_representation
      else if \<not> int4_range \<lfloor>x\<rfloor> then Some numeric_value_out_of_range
      else None)"
| "int4_fault (Some PlusInfinity) = Some invalid_text_representation"
| "int4_fault (Some MinusInfinity) = Some invalid_text_representation"

fun int4_value :: "number option \<Rightarrow> int option" where
  "int4_value (Some (Finite x)) = Some \<lfloor>x\<rfloor>"
| "int4_value n = None"

text \<open>
  The migration's own comment: the service role bypasses row level security.
\<close>

definition bypasses_rls :: "db_role \<Rightarrow> bool" where
  "bypasses_rls r = (r = service_role)"

text \<open>
  Policy \<open>admin_select\<close>: \<open>FOR SELECT TO authenticated USING ((auth.jwt() ->> 'role') = 'admin'
  OR (auth.jwt() -> 'app_metadata' ->> 'role') = 'admin')\<close>. The predicate reads no column,
  so it shows a caller every row or none.
\<close>

definition admin_select :: "caller \<Rightarrow> bool" where
  "admin_select c =
     (role c = authenticated \<and>
      (claim_role (token c) = Some (js ''admin'') \<or> app_metadata_role (token c) = Some (js ''admin'')))"

text \<open>Policy \<open>service_role_insert\<close>: \<open>FOR INSERT TO service_role WITH CHECK (true)\<close>.\<close>

definition service_role_insert :: "caller \<Rightarrow> bool" where
  "service_role_insert c = (role c = service_role \<and> True)"

text \<open>
  \<open>SELECT\<close> on \<open>sw_event_log\<close> under \<open>ENABLE ROW LEVEL SECURITY\<close>: the rows that no
  policy lets the caller see are left out of the result without any error.
\<close>

definition select_sw_event_log :: "grants \<Rightarrow> caller \<Rightarrow> database \<Rightarrow> pg_error + event list" where
  "select_sw_event_log g c db =
     (if \<not> g (role c) SELECT then Inl insufficient_privilege
      else if bypasses_rls (role c) then Inr (sw_event_log db)
      else Inr (filter (\<lambda>r. admin_select c) (sw_event_log db)))"

text \<open>What the database supplies for the column defaults of one \<open>INSERT\<close>.\<close>

record defaults =
  gen_random_uuid :: uuid
  now :: timestamptz

text \<open>The object \<open>row\<close> that the Edge Function builds and inserts.\<close>

record insert_row =
  r_trace_id :: jstring
  r_source :: jstring
  r_event_type :: jstring
  r_scan_id :: json
  r_client_id :: json
  r_event_name :: json
  r_status :: jstring
  r_req :: json
  r_res :: json
  r_err :: json
  r_meta :: json
  r_duration_ms :: "number option"

definition new_event :: "defaults \<Rightarrow> uuid \<Rightarrow> insert_row \<Rightarrow> event" where
  "new_event d t r =
     \<lparr>row_id = gen_random_uuid d, trace_id = t, scan_id = r_scan_id r,
      client_id = r_client_id r, source = r_source r, event_type = r_event_type r,
      event_name = r_event_name r, status = r_status r, req = r_req r, res = r_res r,
      err = r_err r, meta = r_meta r, duration_ms = int4_value (r_duration_ms r),
      created_at = now d\<rparr>"

text \<open>The first value of the row, \<open>trace_id\<close> apart, that its column refuses.\<close>

definition row_fault :: "insert_row \<Rightarrow> pg_error option" where
  "row_fault r =
     first_fault
       [json_fault (r_scan_id r), json_fault (r_client_id r), text_fault (r_source r),
        text_fault (r_event_type r), json_fault (r_event_name r), text_fault (r_status r),
        json_fault (r_req r), json_fault (r_res r), json_fault (r_err r), json_fault (r_meta r),
        int4_fault (r_duration_ms r)]"

text \<open>
  \<open>INSERT INTO sw_event_log\<close>: the privilege, the policy, the column types (\<open>trace_id UUID\<close>,
  the texts and JSON values, \<open>duration_ms INTEGER\<close>), the primary key; then the row is
  appended and its \<open>id\<close> returned.
\<close>

definition insert_sw_event_log ::
    "grants \<Rightarrow> caller \<Rightarrow> defaults \<Rightarrow> insert_row \<Rightarrow> database \<Rightarrow> pg_error + (uuid \<times> database)" where
  "insert_sw_event_log g c d r db =
     (if \<not> g (role c) INSERT then Inl insufficient_privilege
      else if \<not> bypasses_rls (role c) \<and> \<not> service_role_insert c then Inl insufficient_privilege
      else (case uuid_in (r_trace_id r) of
              None \<Rightarrow> Inl invalid_text_representation
            | Some t \<Rightarrow>
               (case row_fault r of
                  Some e \<Rightarrow> Inl e
                | None \<Rightarrow>
                   (if gen_random_uuid d \<in> row_id ` set (sw_event_log db) then Inl unique_violation
                    else Inr (gen_random_uuid d,
                              db\<lparr>sw_event_log := sw_event_log db @ [new_event d t r]\<rparr>)))))"

text \<open>
  \<open>INSERT INTO sw_event_artifacts\<close>, with \<open>id\<close> and \<open>created_at\<close> left to their defaults:
  the same checks, and \<open>event_id\<close> must reference a row of \<open>sw_event_log\<close>.
\<close>

definition insert_sw_event_artifacts ::
    "grants \<Rightarrow> caller \<Rightarrow> defaults \<Rightarrow> artifact \<Rightarrow> database \<Rightarrow> pg_error + (uuid \<times> database)" where
  "insert_sw_event_artifacts g c d a db =
     (if \<not> g (role c) INSERT then Inl insufficient_privilege
      else if \<not> bypasses_rls (role c) \<and> \<not> service_role_insert c then Inl insufficient_privilege
      else (case first_fault [text_fault (artifact_type a), json_fault (content_type a),
                              json_fault (storage_path a), json_fault (data a)] of
              Some e \<Rightarrow> Inl e
            | None \<Rightarrow>
               (if \<not> fits_int4 (size_bytes a) then Inl numeric_value_out_of_range
                else if a_event_id a \<notin> row_id ` set (sw_event_log db) then Inl foreign_key_violation
                else if gen_random_uuid d \<in> artifact_id ` set (sw_event_artifacts db) then Inl unique_violation
                else Inr (gen_random_uuid d,
                          db\<lparr>sw_event_artifacts := sw_event_artifacts db @
                                [a\<lparr>artifact_id := gen_random_uuid d, a_created_at := now d\<rparr>]\<rparr>))))"

subsection \<open>Statements and the rewrite rules\<close>

text \<open>
  The statements that change a table: \<open>UPDATE t SET ... WHERE w\<close> is the pair of \<open>w\<close> and
  the new row as a function of the old one; \<open>DELETE FROM t WHERE w\<close> is \<open>w\<close>.
\<close>

datatype statement =
    Insert_event defaults insert_row
  | Update_event "event \<Rightarrow> bool" "event \<Rightarrow> event"
  | Delete_event "event \<Rightarrow> bool"
  | Insert_artifact defaults artifact
  | Update_artifact "artifact \<Rightarrow> bool" "artifact \<Rightarrow> artifact"
  | Delete_artifact "artifact \<Rightarrow> bool"

text \<open>
  What a statement does to the tables by itself, no rule applied. No policy is written for
  \<open>UPDATE\<close> or \<open>DELETE\<close>, so only a role that bypasses row level security reaches any
  row with them.
\<close>

fun execute_plain :: "grants \<Rightarrow> caller \<Rightarrow> statement \<Rightarrow> database \<Rightarrow> pg_error + database" where
  "execute_plain g c (Insert_event d r) db =
     (case insert_sw_event_log g c d r db of Inl e \<Rightarrow> Inl e | Inr (i, db') \<Rightarrow> Inr db')"
| "execute_plain g c (Update_event w f) db =
     (if \<not> g (role c) UPDATE then Inl insufficient_privilege
      else if bypasses_rls (role c)
        then Inr (db\<lparr>sw_event_log := map (\<lambda>l. if w l then f l else l) (sw_event_log db)\<rparr>)
      else Inr db)"
| "execute_plain g c (Delete_event w) db =
     (if \<not> g (role c) DELETE then Inl insufficient_privilege
      else if bypasses_rls (role c)
        then Inr (db\<lparr>sw_event_log := filter (\<lambda>l. \<not> w l) (sw_event_log db)\<rparr>)
      else Inr db)"
| "execute_plain g c (Insert_artifact d a) db =
     (case insert_sw_event_artifacts g c d a db of Inl e \<Rightarrow> Inl e | Inr (i, db') \<Rightarrow> Inr db')"
| "execute_plain g c (Update_artifact w f) db =
     (if \<not> g (role c) UPDATE then Inl insufficient_privilege
      else if bypasses_rls (role c)
        then Inr (db\<lparr>sw_event_artifacts := map (\<lambda>l. if w l then f l else l) (sw_event_artifacts db)\<rparr>)
      else Inr db)"
| "execute_plain g c (Delete_artifact w) db =
     (if \<not> g (role c) DELETE then Inl insufficient_privilege
      else if bypasses_rls (role c)
        then Inr (db\<lparr>sw_event_artifacts := filter (\<lambda>l. \<not> w l) (sw_event_artifacts db)\<rparr>)
      else Inr db)"

text \<open>
  The rules \<open>sw_event_log_no_update\<close>, \<open>sw_event_log_no_delete\<close>,
  \<open>sw_event_artifacts_no_update\<close> and \<open>sw_event_artifacts_no_delete\<close>, each
  \<open>ON UPDATE\<close> (or \<open>DELETE\<close>) \<open>TO\<close> its table \<open>DO INSTEAD NOTHING\<close>: the statement is
  replaced by no statement at all. No rule is written for \<open>INSERT\<close>.
\<close>

fun rewrite :: "statement \<Rightarrow> statement list" where
  "rewrite (Update_event w f) = []"
| "rewrite (Delete_event w) = []"
| "rewrite (Update_artifact w f) = []"
| "rewrite (Delete_artifact w) = []"
| "rewrite s = [s]"

fun execute_all :: "grants \<Rightarrow> caller \<Rightarrow> statement list \<Rightarrow> database \<Rightarrow> pg_error + database" where
  "execute_all g c [] db = Inr db"
| "execute_all g c (s # ss) db =
     (case execute_plain g c s db of Inl e \<Rightarrow> Inl e | Inr db' \<Rightarrow> execute_all g c ss db')"

text \<open>A statement as the database runs it: rewritten by the rules, then executed.\<close>

definition execute :: "grants \<Rightarrow> caller \<Rightarrow> statement \<Rightarrow> database \<Rightarrow> pg_error + database" where
  "execute g c s db = execute_all g c (rewrite s) db"

text \<open>
  Statements of any callers, one after the other, each in its own transaction: a
  statement that fails leaves the tables as they were.
\<close>

fun session :: "grants \<Rightarrow> (caller \<times> statement) list \<Rightarrow> database \<Rightarrow> database" where
  "session g [] db = db"
| "session g ((c, s) # rest) db =
     (case execute g c s db of Inl e \<Rightarrow> session g rest db | Inr db' \<Rightarrow> session g rest db')"

section \<open>The Edge Function \<open>sw-log\<close>\<close>

definition REQUIRED_FIELDS :: "jstring list" where
  "REQUIRED_FIELDS = [js ''trace_id'', js ''source'', js ''event_type'']"

definition VALID_STATUSES :: "jstring list" where
  "VALID_STATUSES = [js ''info'', js ''ok'', js ''error'']"

record response =
  status_code :: nat
  body :: "json option"

definition jsonError :: "jstring \<Rightarrow> nat \<Rightarrow> response" where
  "jsonError message st =
     \<lparr>status_code = st, body = Some (JObj [(js ''ok'', JBool False), (js ''error'', JStr message)])\<rparr>"

text \<open>
  A request: its method, and what \<open>req.json()\<close> gives (\<open>None\<close> when it throws, the body
  not being JSON).
\<close>

record request =
  http_method :: string
  parsed :: "json option"

text \<open>
  The string of a value that the handler has already found to be a string; it is
  applied to nothing else.
\<close>

fun the_string :: "json option \<Rightarrow> jstring" where
  "the_string (Some (JStr s)) = s"
| "the_string _ = []"

text \<open>
  The test of the loop over \<open>REQUIRED_FIELDS\<close>:
  \<open>!body[field] || typeof body[field] !== "string" || !body[field].trim()\<close>.
\<close>

definition invalid_required :: "json option \<Rightarrow> bool" where
  "invalid_required v =
     (\<not> truthy v \<or> typeof v \<noteq> ''string'' \<or> \<not> truthy (Some (JStr (js_trim (the_string v)))))"

text \<open>\<open>(VALID_STATUSES as readonly string[]).includes(v)\<close>: only a string equals a string.\<close>

fun array_includes :: "jstring list \<Rightarrow> json option \<Rightarrow> bool" where
  "array_includes xs (Some (JStr s)) = (s \<in> set xs)"
| "array_includes xs _ = False"

definition valid_status :: "json \<Rightarrow> jstring" where
  "valid_status b =
     (if truthy (get_prop b (js ''status'')) \<and> array_includes VALID_STATUSES (get_prop b (js ''status''))
      then the_string (get_prop b (js ''status''))
      else js ''info'')"

text \<open>\<open>typeof body.duration_ms === "number" ? Math.round(body.duration_ms) : null\<close>\<close>

fun rounded_duration :: "json option \<Rightarrow> number option" where
  "rounded_duration (Some (JNum x)) = Some (Math_round x)"
| "rounded_duration _ = None"

definition build_row :: "json \<Rightarrow> insert_row" where
  "build_row b =
     \<lparr>r_trace_id = toLowerCase (the_string (get_prop b (js ''trace_id''))),
      r_source = js_trim (the_string (get_prop b (js ''source''))),
      r_event_type = js_trim (the_string (get_prop b (js ''event_type''))),
      r_scan_id = or_null (get_prop b (js ''scan_id'')),
      r_client_id = or_null (get_prop b (js ''client_id'')),
      r_event_name = or_null (get_prop b (js ''event_name'')),
      r_status = valid_status b,
      r_req = or_null (get_prop b (js ''req'')),
      r_res = or_null (get_prop b (js ''res'')),
      r_err = or_null (get_prop b (js ''err'')),
      r_meta = or_null (get_prop b (js ''meta'')),
      r_duration_ms = rounded_duration (get_prop b (js ''duration_ms''))\<rparr>"

text \<open>\<open>Deno.env\<close>\<close>

record env =
  SUPABASE_URL :: "jstring option"
  SUPABASE_SERVICE_ROLE_KEY :: "jstring option"

text \<open>
  The project that the function is deployed in: its URL and its service-role key, the
  privileges on its tables, whether its database can be reached, and what the database
  supplies for the column defaults of the insert.
\<close>

record platform =
  project_url :: jstring
  service_role_key :: jstring
  table_grants :: grants
  reachable :: bool
  column_defaults :: defaults

text \<open>\<open>!supabaseUrl\<close>: the variable is not set, or set to the empty string.\<close>

fun unset :: "jstring option \<Rightarrow> bool" where
  "unset None = True"
| "unset (Some s) = (s = [])"

text \<open>The client made with the service-role key acts as the service role.\<close>

definition service_client :: caller where
  "service_client =
     \<lparr>role = service_role, token = \<lparr>claim_role = Some (js ''service_role''), app_metadata_role = None\<rparr>\<rparr>"

text \<open>
  The client sends the row as the text that \<open>JSON.stringify\<close> writes for it: the row that
  the database reads has \<open>null\<close> wherever the row object has an infinity.
\<close>

fun stringify_number :: "number option \<Rightarrow> number option" where
  "stringify_number (Some (Finite x)) = Some (Finite x)"
| "stringify_number n = None"

definition stringify_row :: "insert_row \<Rightarrow> insert_row" where
  "stringify_row r =
     r\<lparr>r_scan_id := JSON_stringify (r_scan_id r), r_client_id := JSON_stringify (r_client_id r),
       r_event_name := JSON_stringify (r_event_name r), r_req := JSON_stringify (r_req r),
       r_res := JSON_stringify (r_res r), r_err := JSON_stringify (r_err r),
       r_meta := JSON_stringify (r_meta r), r_duration_ms := stringify_number (r_duration_ms r)\<rparr>"

text \<open>
  \<open>createClient(supabaseUrl, serviceKey)\<close> and
  \<open>supabase.from("sw_event_log").insert(row).select("id").single()\<close>: the request reaches
  the database when the URL is the project's and the database is up; the client acts as
  the service role when the key is the project's service-role key; returning the \<open>id\<close>
  of the new row takes the \<open>SELECT\<close> privilege besides \<open>INSERT\<close>.
\<close>

definition supabase_insert :: "env \<Rightarrow> platform \<Rightarrow> insert_row \<Rightarrow> database \<Rightarrow> pg_error + (uuid \<times> database)" where
  "supabase_insert e pf r db =
     (if SUPABASE_URL e \<noteq> Some (project_url pf) \<or> \<not> reachable pf then Inl connection_failure
      else if SUPABASE_SERVICE_ROLE_KEY e \<noteq> Some (service_role_key pf) then Inl invalid_authorization
      else if \<not> table_grants pf service_role SELECT then Inl insufficient_privilege
      else insert_sw_event_log (table_grants pf) service_client (column_defaults pf) (stringify_row r) db)"

text \<open>The part of the handler from the insert on.\<close>

definition insert_and_respond :: "env \<Rightarrow> platform \<Rightarrow> insert_row \<Rightarrow> database \<Rightarrow> response \<times> database" where
  "insert_and_respond e pf r db =
     (case supabase_insert e pf r db of
        Inl error \<Rightarrow>
          (\<lparr>status_code = 500,
            body = Some (JObj [(js ''ok'', JBool False), (js ''error'', JStr (js (pg_message error))),
                               (js ''code'', JStr (js (pg_code error)))])\<rparr>, db)
      | Inr (i, db') \<Rightarrow>
          (\<lparr>status_code = 201, body = Some (JObj [(js ''ok'', JBool True), (js ''id'', JStr i)])\<rparr>, db'))"

text \<open>The part of the handler from the validation of the parsed body on.\<close>

definition validate_and_insert :: "env \<Rightarrow> platform \<Rightarrow> json \<Rightarrow> database \<Rightarrow> response \<times> database" where
  "validate_and_insert e pf b db =
     (case find (\<lambda>field. invalid_required (get_prop b field)) REQUIRED_FIELDS of
        Some field \<Rightarrow> (jsonError (js ''Missing or invalid required field: '' @ field) 400, db)
      | None \<Rightarrow>
         (if \<not> UUID_RE_test (the_string (get_prop b (js ''trace_id'')))
          then (jsonError (js ''trace_id must be a valid UUID (xxxxxxxx-xxxx-xxxx-xxxx-xxxxxxxxxxxx).'') 400, db)
          else if unset (SUPABASE_URL e) \<or> unset (SUPABASE_SERVICE_ROLE_KEY e)
          then (jsonError (js ''Server configuration error.'') 500, db)
          else insert_and_respond e pf (build_row b) db))"

text \<open>
  The handler. \<open>body[field]\<close> on \<open>null\<close> throws a TypeError that nothing in the handler
  catches: the result \<open>None\<close>.
\<close>

definition sw_log :: "env \<Rightarrow> platform \<Rightarrow> request \<Rightarrow> database \<Rightarrow> response option \<times> database" where
  "sw_log e pf rq db =
     (if http_method rq = ''OPTIONS'' then (Some \<lparr>status_code = 204, body = None\<rparr>, db)
      else if http_method rq \<noteq> ''POST'' then (Some (jsonError (js ''Method not allowed. Use POST.'') 405), db)
      else (case parsed rq of
              None \<Rightarrow> (Some (jsonError (js ''Invalid JSON body.'') 400), db)
            | Some b \<Rightarrow>
               (if b = JNull then (None, db)
                else (Some (fst (validate_and_insert e pf b db)), snd (validate_and_insert e pf b db)))))"

section \<open>The views and functions of the helper migration\<close>

text \<open>
  \<open>ORDER BY\<close> fixes the order of the rows as far as the sort keys differ and no further:
  a list \<open>out\<close> is a result of ordering \<open>rows\<close> when it holds the same rows and the
  comparison \<open>le\<close> of the sort keys holds between each row and every later one.
\<close>

definition order_by :: "('a \<Rightarrow> 'a \<Rightarrow> bool) \<Rightarrow> 'a list \<Rightarrow> 'a list \<Rightarrow> bool" where
  "order_by le rows out = (mset out = mset rows \<and> sorted_wrt le out)"

text \<open>The columns that \<open>v_trace_timeline\<close> selects.\<close>

record timeline_row =
  tl_trace_id :: uuid
  event_id :: uuid
  tl_created_at :: timestamptz
  tl_source :: jstring
  tl_event_type :: jstring
  tl_event_name :: json
  tl_status :: jstring
  tl_scan_id :: json
  tl_client_id :: json
  tl_duration_ms :: "int option"
  tl_err :: json
  tl_meta :: json

definition timeline_columns :: "event \<Rightarrow> timeline_row" where
  "timeline_columns l =
     \<lparr>tl_trace_id = trace_id l, event_id = row_id l, tl_created_at = created_at l,
      tl_source = source l, tl_event_type = event_type l, tl_event_name = event_name l,
      tl_status = status l, tl_scan_id = scan_id l, tl_client_id = client_id l,
      tl_duration_ms = duration_ms l, tl_err = err l, tl_meta = meta l\<rparr>"

text \<open>\<open>ORDER BY l.trace_id, l.created_at ASC\<close>\<close>

definition timeline_order :: "timeline_row \<Rightarrow> timeline_row \<Rightarrow> bool" where
  "timeline_order a b =
     (tl_trace_id a < tl_trace_id b \<or> (tl_trace_id a = tl_trace_id b \<and> tl_created_at a \<le> tl_created_at b))"

text \<open>
  \<open>SELECT * FROM v_trace_timeline WHERE trace_id = t\<close>, with the view's definition in
  place of its name: \<open>out\<close> is a result of the query.
\<close>

definition v_trace_timeline :: "database \<Rightarrow> uuid \<Rightarrow> timeline_row list \<Rightarrow> bool" where
  "v_trace_timeline db t out =
     order_by timeline_order
       (filter (\<lambda>r. tl_trace_id r = t) (map timeline_columns (sw_event_log db))) out"

text \<open>
  The same query with the \<open>trace_id\<close> given as text, \<open>WHERE trace_id = 'q'\<close>: the text is
  read as a UUID first, and a text that is none gives an error and no result.
\<close>

definition select_timeline :: "database \<Rightarrow> jstring \<Rightarrow> timeline_row list \<Rightarrow> bool" where
  "select_timeline db q out =
     (case uuid_in q of None \<Rightarrow> False | Some t \<Rightarrow> v_trace_timeline db t out)"

text \<open>The columns that \<open>sw_event_log_errors_since\<close> returns.\<close>

record error_row =
  er_trace_id :: uuid
  er_scan_id :: json
  er_client_id :: json
  er_source :: jstring
  er_event_type :: jstring
  er_event_name :: json
  er_err :: json
  er_meta :: json
  er_created_at :: timestamptz

definition error_columns :: "event \<Rightarrow> error_row" where
  "error_columns l =
     \<lparr>er_trace_id = trace_id l, er_scan_id = scan_id l, er_client_id = client_id l,
      er_source = source l, er_event_type = event_type l, er_event_name = event_name l,
      er_err = err l, er_meta = meta l, er_created_at = created_at l\<rparr>"

text \<open>\<open>(minutes || ' minutes')::INTERVAL\<close>, in microseconds.\<close>

definition minutes_interval :: "int \<Rightarrow> int" where
  "minutes_interval m = m * 60000000"

text \<open>
  \<open>sw_event_log_errors_since(minutes INT DEFAULT 15)\<close>, called at the time \<open>now_ts\<close>;
  \<open>None\<close> is a call that leaves the argument out. The function is \<open>SECURITY DEFINER\<close>: it
  reads the table whoever calls it.
\<close>

definition sw_event_log_errors_since :: "database \<Rightarrow> timestamptz \<Rightarrow> int option \<Rightarrow> error_row list \<Rightarrow> bool" where
  "sw_event_log_errors_since db now_ts arg out =
     (let minutes = (case arg of None \<Rightarrow> 15 | Some m \<Rightarrow> m) in
      order_by (\<lambda>a b. er_created_at a \<ge> er_created_at b)
        (map error_columns
          (filter (\<lambda>l. status l = js ''error'' \<and> created_at l \<ge> now_ts - minutes_interval minutes)
             (sw_event_log db))) out)"

section \<open>The Replay Engine\<close>

text \<open>
  Modelled from the spec: \<open>debug/replay_runner.py\<close> is not among the sources. The spec's
  section 4.5: fetch the full Timeline for the trace; the earliest Event, by the ordering
  of the Timeline View as the spec gives it (\<open>created_at\<close> ascending, then insertion id
  ascending), that carries a non-null \<open>req\<close> payload is the root request; fail with
  \<open>NotFoundError\<close> if no Events exist for the trace and with \<open>IncompleteTraceError\<close> if
  none carries a \<open>req\<close> payload; otherwise build a request from that payload, with the
  original \<open>trace_id\<close>, for the target entry point, and dispatch it unless this is a dry
  run.
\<close>

text \<open>Modelled from the spec: the two errors of a replay.\<close>

datatype replay_error = NotFoundError | IncompleteTraceError

text \<open>
  Modelled from the spec: the outbound request (the payload, with the \<open>trace_id\<close> as an
  explicit field, for a target entry point) and the options of a replay.
\<close>

record outbound_request =
  target :: jstring
  payload :: json
  ob_trace_id :: uuid

record replay_options =
  entry_point :: jstring
  dry_run :: bool

text \<open>Modelled from the spec: the Timeline of a trace, in the spec's ordering.\<close>

definition fetch_timeline :: "database \<Rightarrow> uuid \<Rightarrow> event list" where
  "fetch_timeline db t =
     sort_key (\<lambda>l. (created_at l, row_id l)) (filter (\<lambda>l. trace_id l = t) (sw_event_log db))"

text \<open>
  Modelled from the spec: the outcome of a replay, with the list of the outbound calls
  it made.
\<close>

definition replay_engine ::
    "replay_options \<Rightarrow> database \<Rightarrow> uuid \<Rightarrow> (replay_error + outbound_request) \<times> outbound_request list" where
  "replay_engine opts db t =
     (if fetch_timeline db t = [] then (Inl NotFoundError, [])
      else (case find (\<lambda>l. req l \<noteq> JNull) (fetch_timeline db t) of
              None \<Rightarrow> (Inl IncompleteTraceError, [])
            | Some l \<Rightarrow>
               (Inr \<lparr>target = entry_point opts, payload = req l, ob_trace_id = t\<rparr>,
                if dry_run opts then []
                else [\<lparr>target = entry_point opts, payload = req l, ob_trace_id = t\<rparr>])))"

section \<open>The Contract Verifier\<close>

text \<open>
  Modelled from the spec: \<open>debug/contract_tests.py\<close> is not among the sources. The spec's
  section 4.6 lists nine checks over the Events of one trace, each giving a boolean and a
  diagnostic; all of them run and their results are reported together, unless the caller
  asks for fail-fast.
\<close>

text \<open>
  Modelled from the spec: the diagnostic of a check names what it found (the offending
  event ids for check 5, the conflicting values for check 6).
\<close>

datatype diagnostic =
    Passed
  | Skipped
  | No_events
  | Start_events nat
  | No_activity
  | Terminal_events nat
  | Error_without_message "uuid list"
  | Conflicting_scan_ids "json list"
  | Not_ordered
  | Fixture_mode_missing "uuid list"
  | Ingestion_unhealthy

text \<open>
  Modelled from the spec: the result of a check, the options of a run (fixture mode
  expected, fail-fast, the marker types counted as activity).
\<close>

record check_result =
  check_no :: nat
  ok :: bool
  message :: diagnostic

record verify_options =
  fixture_mode_expected :: bool
  fail_fast :: bool
  activity_markers :: "jstring list"

text \<open>Modelled from the spec: a check gives its boolean, and its diagnostic when it fails.\<close>

definition report :: "nat \<Rightarrow> bool \<Rightarrow> diagnostic \<Rightarrow> check_result" where
  "report n b d = \<lparr>check_no = n, ok = b, message = (if b then Passed else d)\<rparr>"

text \<open>Modelled from the spec: check 1, at least one Event exists for the trace.\<close>

definition check_events_exist :: "event list \<Rightarrow> check_result" where
  "check_events_exist evs = report 1 (evs \<noteq> []) No_events"

text \<open>Modelled from the spec: check 2, exactly one Event with \<open>event_type = workflow.start\<close>.\<close>

definition check_one_start :: "event list \<Rightarrow> check_result" where
  "check_one_start evs =
     report 2 (length (filter (\<lambda>l. event_type l = js ''workflow.start'') evs) = 1)
       (Start_events (length (filter (\<lambda>l. event_type l = js ''workflow.start'') evs)))"

text \<open>
  Modelled from the spec: check 3, at least one \<open>tool.call\<close> or \<open>tool.result\<close> Event, or
  one of the marker types that the producer logs when a webhook is received.
\<close>

definition check_activity :: "verify_options \<Rightarrow> event list \<Rightarrow> check_result" where
  "check_activity opts evs =
     report 3 (\<exists>l \<in> set evs. event_type l \<in> set ([js ''tool.call'', js ''tool.result''] @ activity_markers opts))
       No_activity"

text \<open>
  Modelled from the spec: a terminal Event is one of type \<open>workflow.complete\<close> or
  \<open>workflow.error\<close>; check 4, exactly one terminal Event exists.
\<close>

definition terminal :: "event \<Rightarrow> bool" where
  "terminal l = (event_type l = js ''workflow.complete'' \<or> event_type l = js ''workflow.error'')"

definition check_one_terminal :: "event list \<Rightarrow> check_result" where
  "check_one_terminal evs =
     report 4 (length (filter terminal evs) = 1) (Terminal_events (length (filter terminal evs)))"

text \<open>
  Modelled from the spec: check 5, every Event with \<open>status = error\<close> has a non-null,
  non-empty \<open>err.message\<close>.
\<close>

fun has_message :: "json option \<Rightarrow> bool" where
  "has_message None = False"
| "has_message (Some JNull) = False"
| "has_message (Some (JStr s)) = (s \<noteq> [])"
| "has_message (Some v) = True"

definition lacks_message :: "event \<Rightarrow> bool" where
  "lacks_message l = (status l = js ''error'' \<and> \<not> has_message (get_prop (err l) (js ''message'')))"

definition check_error_messages :: "event list \<Rightarrow> check_result" where
  "check_error_messages evs =
     report 5 (filter lacks_message evs = []) (Error_without_message (map row_id (filter lacks_message evs)))"

text \<open>
  Modelled from the spec: check 6, the Events that carry a non-null \<open>scan_id\<close> all carry
  the same one.
\<close>

definition scan_ids :: "event list \<Rightarrow> json list" where
  "scan_ids evs = remdups (filter (\<lambda>v. v \<noteq> JNull) (map scan_id evs))"

definition check_scan_id :: "event list \<Rightarrow> check_result" where
  "check_scan_id evs = report 6 (length (scan_ids evs) \<le> 1) (Conflicting_scan_ids (scan_ids evs))"

text \<open>
  Modelled from the spec: check 7, the Events in storage order have non-decreasing
  \<open>created_at\<close>.
\<close>

definition check_ordering :: "event list \<Rightarrow> check_result" where
  "check_ordering evs = report 7 (sorted (map created_at evs)) Not_ordered"

text \<open>
  Modelled from the spec: check 8, when fixture mode is expected every Event carries
  \<open>meta.fixture_mode = true\<close>; otherwise the check is skipped, not failed.
\<close>

definition no_fixture_flag :: "event \<Rightarrow> bool" where
  "no_fixture_flag l = (get_prop (meta l) (js ''fixture_mode'') \<noteq> Some (JBool True))"

definition check_fixture_mode :: "verify_options \<Rightarrow> event list \<Rightarrow> check_result" where
  "check_fixture_mode opts evs =
     (if fixture_mode_expected opts
      then report 8 (filter no_fixture_flag evs = []) (Fixture_mode_missing (map row_id (filter no_fixture_flag evs)))
      else \<lparr>check_no = 8, ok = True, message = Skipped\<rparr>)"

text \<open>
  Modelled from the spec: check 9, a synthetic well-formed Event is appended and
  acknowledged; \<open>acknowledged\<close> is what the ingestion boundary answered.
\<close>

definition check_ingestion :: "bool \<Rightarrow> check_result" where
  "check_ingestion acknowledged = report 9 acknowledged Ingestion_unhealthy"

text \<open>Modelled from the spec: the nine checks, in the order of the spec's list.\<close>

definition all_checks :: "verify_options \<Rightarrow> bool \<Rightarrow> event list \<Rightarrow> check_result list" where
  "all_checks opts acknowledged evs =
     [check_events_exist evs, check_one_start evs, check_activity opts evs, check_one_terminal evs,
      check_error_messages evs, check_scan_id evs, check_ordering evs, check_fixture_mode opts evs,
      check_ingestion acknowledged]"

text \<open>Modelled from the spec: fail-fast stops after the first check that fails.\<close>

fun until_first_failure :: "check_result list \<Rightarrow> check_result list" where
  "until_first_failure [] = []"
| "until_first_failure (r # rs) = (if ok r then r # until_first_failure rs else [r])"

text \<open>Modelled from the spec: the checks that ran, and the overall verdict.\<close>

definition contract_verifier :: "verify_options \<Rightarrow> bool \<Rightarrow> event list \<Rightarrow> check_result list \<times> bool" where
  "contract_verifier opts acknowledged evs =
     (let ran = (if fail_fast opts then until_first_failure (all_checks opts acknowledged evs)
                 else all_checks opts acknowledged evs)
      in (ran, list_all ok ran))"

section \<open>The textual form of a UUID in the words of the specification\<close>

text \<open>
  The canonical form: five groups of 8, 4, 4, 4 and 12 hexadecimal digits, of either
  case, with a hyphen between one group and the next.
\<close>

definition hex_digit :: "16 word \<Rightarrow> bool" where
  "hex_digit c = (c \<in> of_char ` set ''0123456789abcdefABCDEF'')"

definition canonical_uuid_text :: "jstring \<Rightarrow> bool" where
  "canonical_uuid_text s =
     (\<exists>g1 g2 g3 g4 g5.
        s = g1 @ js ''-'' @ g2 @ js ''-'' @ g3 @ js ''-'' @ g4 @ js ''-'' @ g5
        \<and> length g1 = 8 \<and> length g2 = 4 \<and> length g3 = 4 \<and> length g4 = 4 \<and> length g5 = 12
        \<and> list_all hex_digit (g1 @ g2 @ g3 @ g4 @ g5))"

section \<open>Example inputs\<close>

text \<open>
  A configured environment, a platform that grants every role every privilege on the
  tables (row level security is then the only gate), and an empty database.
\<close>

definition example_env :: env where
  "example_env = \<lparr>SUPABASE_URL = Some (js ''https://project.supabase.co''),
                   SUPABASE_SERVICE_ROLE_KEY = Some (js ''service-role-key'')\<rparr>"

definition example_platform :: platform where
  "example_platform =
     \<lparr>project_url = js ''https://project.supabase.co'', service_role_key = js ''service-role-key'',
      table_grants = (\<lambda>r p. True), reachable = True,
      column_defaults = \<lparr>gen_random_uuid = js ''0a0a0a0a-0000-4000-8000-000000000001'', now = 1000000\<rparr>\<rparr>"

definition empty_database :: database where
  "empty_database = \<lparr>sw_event_log = [], sw_event_artifacts = []\<rparr>"

text \<open>
  A submission with a mixed-case \<open>trace_id\<close>, padded \<open>source\<close>, no \<open>status\<close> and a
  negative fractional \<open>duration_ms\<close>; the response and the database it leads to.
\<close>

definition example_fields :: "(jstring \<times> json) list" where
  "example_fields =
     [(js ''trace_id'', JStr (js ''ABCDEF12-1111-1111-1111-11111111abCD'')),
      (js ''source'', JStr (js '' test '')),
      (js ''event_type'', JStr (js ''workflow.start'')),
      (js ''duration_ms'', JNum (Finite (- 5 / 2)))]"

definition example_body :: json where
  "example_body = JObj example_fields"

definition example_request :: request where
  "example_request = \<lparr>http_method = ''POST'', parsed = Some example_body\<rparr>"

definition example_created :: response where
  "example_created =
     \<lparr>status_code = 201,
      body = Some (JObj [(js ''ok'', JBool True), (js ''id'', JStr (js ''0a0a0a0a-0000-4000-8000-000000000001''))])\<rparr>"

definition example_event :: event where
  "example_event =
     \<lparr>row_id = js ''0a0a0a0a-0000-4000-8000-000000000001'',
      trace_id = js ''abcdef12-1111-1111-1111-11111111abcd'',
      scan_id = JNull, client_id = JNull, source = js ''test'', event_type = js ''workflow.start'',
      event_name = JNull, status = js ''info'', req = JNull, res = JNull, err = JNull, meta = JNull,
      duration_ms = Some (- 2), created_at = 1000000\<rparr>"

definition example_database :: database where
  "example_database = \<lparr>sw_event_log = [example_event], sw_event_artifacts = []\<rparr>"

text \<open>
  The same submission with a \<open>duration_ms\<close> beyond the range of the doubles, as
  \<open>req.json()\<close> reads it, and the database it leads to.
\<close>

definition overflow_fields :: "(jstring \<times> json) list" where
  "overflow_fields =
     [(js ''trace_id'', JStr (js ''ABCDEF12-1111-1111-1111-11111111abCD'')),
      (js ''source'', JStr (js '' test '')),
      (js ''event_type'', JStr (js ''workflow.start'')),
      (js ''duration_ms'', JNum PlusInfinity)]"

definition overflow_database :: database where
  "overflow_database = \<lparr>sw_event_log = [example_event\<lparr>duration_ms := None\<rparr>], sw_event_artifacts = []\<rparr>"

text \<open>
  Two Events of one trace written at the same instant, the one with the larger id first
  in the table.
\<close>

definition tie_trace :: uuid where
  "tie_trace = js ''11111111-1111-1111-1111-111111111111''"

definition tie_first :: event where
  "tie_first = example_event\<lparr>row_id := js ''0a0a0a0a-0000-4000-8000-000000000002'', trace_id := tie_trace\<rparr>"

definition tie_second :: event where
  "tie_second = example_event\<lparr>row_id := js ''0a0a0a0a-0000-4000-8000-000000000001'', trace_id := tie_trace,
                               event_type := js ''workflow.complete'', status := js ''ok''\<rparr>"

definition tie_database :: database where
  "tie_database = \<lparr>sw_event_log = [tie_first, tie_second], sw_event_artifacts = []\<rparr>"

text \<open>
  The time of a sweep, an error Event written 10 minutes before it and one written 20
  minutes before it.
\<close>

definition sweep_time :: timestamptz where
  "sweep_time = 3600000000"

definition recent_error :: event where
  "recent_error = example_event\<lparr>row_id := js ''0a0a0a0a-0000-4000-8000-000000000003'',
                                 event_type := js ''workflow.error'', status := js ''error'',
                                 created_at := sweep_time - 600000000\<rparr>"

definition old_error :: event where
  "old_error = example_event\<lparr>row_id := js ''0a0a0a0a-0000-4000-8000-000000000004'',
                              event_type := js ''workflow.error'', status := js ''error'',
                              created_at := sweep_time - 1200000000\<rparr>"

definition errors_database :: database where
  "errors_database = \<lparr>sw_event_log = [old_error, recent_error], sw_event_artifacts = []\<rparr>"

text \<open>A caller without any token, and one with the admin claim.\<close>

definition anonymous :: caller where
  "anonymous = \<lparr>role = anon, token = \<lparr>claim_role = None, app_metadata_role = None\<rparr>\<rparr>"

definition administrator :: caller where
  "administrator = \<lparr>role = authenticated,
                     token = \<lparr>claim_role = Some (js ''authenticated''), app_metadata_role = Some (js ''admin'')\<rparr>\<rparr>"

text \<open>
  A trace whose first Event carries no \<open>req\<close> and whose second and third do.
\<close>

definition replay_database :: database where
  "replay_database =
     \<lparr>sw_event_log =
        [example_event\<lparr>row_id := js ''0a0a0a0a-0000-4000-8000-000000000007'', trace_id := tie_trace,
                        req := JObj [(js ''step'', JNum (Finite 2))], created_at := 30\<rparr>,
         example_event\<lparr>row_id := js ''0a0a0a0a-0000-4000-8000-000000000005'', trace_id := tie_trace,
                        created_at := 10\<rparr>,
         example_event\<lparr>row_id := js ''0a0a0a0a-0000-4000-8000-000000000006'', trace_id := tie_trace,
                        req := JObj [(js ''client_id'', JStr (js ''CL001''))], created_at := 20\<rparr>],
      sw_event_artifacts = []\<rparr>"

definition replay_to_staging :: replay_options where
  "replay_to_staging = \<lparr>entry_point = js ''https://staging/webhook'', dry_run = False\<rparr>"

definition default_checks :: verify_options where
  "default_checks = \<lparr>fixture_mode_expected = False, fail_fast = False, activity_markers = []\<rparr>"

section \<open>Properties of the Edge Function\<close>

lemma lower_unit_idem: "lower_unit (lower_unit c) = lower_unit c"
  unfolding lower_unit_def by unat_arith

lemma hex_class_lower: "hex_class (lower_unit c) = hex_class c"
  unfolding lower_unit_def hex_class_def by unat_arith simp

lemma lower_unit_dash: "(lower_unit c = 0x2D) = (c = 0x2D)"
  unfolding lower_unit_def by unat_arith

lemma toLowerCase_idem: "toLowerCase (toLowerCase s) = toLowerCase s"
  by (simp add: toLowerCase_def lower_unit_idem)

lemma match_hex_lower:
  "match_hex n (map lower_unit s) = map_option (map lower_unit) (match_hex n s)"
  by (induction n s rule: match_hex.induct) (simp_all add: hex_class_lower)

lemma match_dash_lower:
  "match_dash (map lower_unit s) = map_option (map lower_unit) (match_dash s)"
  by (cases s) (simp_all add: lower_unit_dash)

lemma match_pieces_lower:
  "match_pieces ps (map lower_unit s) = map_option (map lower_unit) (match_pieces ps s)"
proof (induction ps s rule: match_pieces.induct)
  case (1 s)
  show ?case by simp
next
  case (2 n ps s)
  then show ?case by (cases "match_hex n s") (simp_all add: match_hex_lower)
next
  case (3 ps s)
  then show ?case by (cases "match_dash s") (simp_all add: match_dash_lower)
qed

lemma UUID_RE_test_lower: "UUID_RE_test (toLowerCase s) = UUID_RE_test s"
  by (auto simp add: UUID_RE_test_def toLowerCase_def match_pieces_lower)

lemma uuid_in_lower: "uuid_in (toLowerCase s) = uuid_in s"
  by (simp add: uuid_in_def UUID_RE_test_lower toLowerCase_idem)

lemma status_code_jsonError: "status_code (jsonError m st) = st"
  by (simp add: jsonError_def)

text \<open>An insert that succeeds appends one row built from the row sent.\<close>

lemma insert_sw_event_log_Inr:
  assumes "insert_sw_event_log g c d r db = Inr (i, db')"
  shows "i = gen_random_uuid d \<and> UUID_RE_test (r_trace_id r) \<and> row_fault r = None
         \<and> db' = db\<lparr>sw_event_log := sw_event_log db @ [new_event d (toLowerCase (r_trace_id r)) r]\<rparr>"
  using assms unfolding insert_sw_event_log_def uuid_in_def
  by (auto split: if_splits option.splits)

lemma r_trace_id_stringify_row: "r_trace_id (stringify_row r) = r_trace_id r"
  by (simp add: stringify_row_def)

lemma insert_and_respond_201:
  assumes "insert_and_respond e pf r db = (rsp, db')" and "status_code rsp = 201"
  shows "row_fault (stringify_row r) = None
         \<and> db' = db\<lparr>sw_event_log := sw_event_log db @
                 [new_event (column_defaults pf) (toLowerCase (r_trace_id r)) (stringify_row r)]\<rparr>"
proof (cases "supabase_insert e pf r db")
  case (Inl e)
  with assms show ?thesis by (auto simp: insert_and_respond_def)
next
  case (Inr p)
  obtain i db2 where p: "p = (i, db2)" by (cases p)
  with Inr assms have "db' = db2" by (auto simp: insert_and_respond_def)
  moreover from Inr p
  have "insert_sw_event_log (table_grants pf) service_client (column_defaults pf) (stringify_row r) db = Inr (i, db2)"
    by (auto simp: supabase_insert_def split: if_splits)
  ultimately show ?thesis
    using insert_sw_event_log_Inr [of "table_grants pf" service_client "column_defaults pf" "stringify_row r" db i db2]
    by (simp add: r_trace_id_stringify_row)
qed

lemma validate_and_insert_201:
  assumes "validate_and_insert e pf b db = (rsp, db')" and "status_code rsp = 201"
  shows "UUID_RE_test (the_string (get_prop b (js ''trace_id'')))
         \<and> row_fault (stringify_row (build_row b)) = None
         \<and> db' = db\<lparr>sw_event_log := sw_event_log db @
                 [new_event (column_defaults pf) (r_trace_id (build_row b)) (stringify_row (build_row b))]\<rparr>"
proof -
  from assms have u: "UUID_RE_test (the_string (get_prop b (js ''trace_id'')))"
    and i: "insert_and_respond e pf (build_row b) db = (rsp, db')"
    by (auto simp: validate_and_insert_def status_code_jsonError split: option.splits if_splits)
  have "toLowerCase (r_trace_id (build_row b)) = r_trace_id (build_row b)"
    by (simp add: build_row_def toLowerCase_idem)
  with insert_and_respond_201 [OF i assms(2)] u show ?thesis by simp
qed

lemma sw_log_201:
  assumes "sw_log e pf rq db = (Some rsp, db')" and "status_code rsp = 201"
  shows "\<exists>b. parsed rq = Some b \<and> UUID_RE_test (the_string (get_prop b (js ''trace_id'')))
         \<and> row_fault (stringify_row (build_row b)) = None
         \<and> db' = db\<lparr>sw_event_log := sw_event_log db @
                 [new_event (column_defaults pf) (r_trace_id (build_row b)) (stringify_row (build_row b))]\<rparr>"
proof -
  from assms obtain b where b: "parsed rq = Some b"
    and v: "validate_and_insert e pf b db = (rsp, db')"
    by (auto simp: sw_log_def status_code_jsonError split: option.splits if_splits)
  from validate_and_insert_201 [OF v assms(2)] b show ?thesis by blast
qed

text \<open>
  The response depends on the row through \<open>trace_id\<close> and the value that a column
  refuses, if any, only.
\<close>

lemma insert_and_respond_cong:
  assumes "r_trace_id r = r_trace_id r'" and "row_fault (stringify_row r) = row_fault (stringify_row r')"
  shows "fst (insert_and_respond e pf r db) = fst (insert_and_respond e pf r' db)"
  using assms
  by (simp add: insert_and_respond_def supabase_insert_def insert_sw_event_log_def
      r_trace_id_stringify_row split: option.splits)

lemma validate_and_insert_cong:
  assumes "\<forall>k \<in> set REQUIRED_FIELDS. get_prop b k = get_prop b' k"
    and "row_fault (stringify_row (build_row b)) = row_fault (stringify_row (build_row b'))"
  shows "fst (validate_and_insert e pf b db) = fst (validate_and_insert e pf b' db)"
proof -
  from assms(1) have f: "find (\<lambda>field. invalid_required (get_prop b field)) REQUIRED_FIELDS =
      find (\<lambda>field. invalid_required (get_prop b' field)) REQUIRED_FIELDS"
    by (intro find_cong) auto
  from assms(1) have t: "get_prop b (js ''trace_id'') = get_prop b' (js ''trace_id'')"
    by (simp add: REQUIRED_FIELDS_def)
  have "fst (insert_and_respond e pf (build_row b) db) = fst (insert_and_respond e pf (build_row b') db)"
  proof (rule insert_and_respond_cong)
    show "r_trace_id (build_row b) = r_trace_id (build_row b')"
      by (simp add: build_row_def t)
    show "row_fault (stringify_row (build_row b)) = row_fault (stringify_row (build_row b'))"
      by (rule assms(2))
  qed
  with f t show ?thesis
    by (simp add: validate_and_insert_def split: option.splits)
qed

lemma sw_log_cong:
  assumes "b \<noteq> JNull" and "b' \<noteq> JNull"
    and "\<forall>k \<in> set REQUIRED_FIELDS. get_prop b k = get_prop b' k"
    and "row_fault (stringify_row (build_row b)) = row_fault (stringify_row (build_row b'))"
  shows "fst (sw_log e pf \<lparr>http_method = m, parsed = Some b\<rparr> db) = fst (sw_log e pf \<lparr>http_method = m, parsed = Some b'\<rparr> db)"
  using assms(1,2) validate_and_insert_cong [OF assms(3,4)]
  by (simp add: sw_log_def)

lemma status_of_row:
  "r_status (build_row b) =
     (if get_prop b (js ''status'') \<in> {Some (JStr (js ''info'')), Some (JStr (js ''ok'')), Some (JStr (js ''error''))}
      then the_string (get_prop b (js ''status'')) else js ''info'')"
proof (cases "get_prop b (js ''status'')")
  case None
  then show ?thesis by (simp add: build_row_def valid_status_def)
next
  case (Some v)
  then show ?thesis
    by (cases v) (auto simp add: build_row_def valid_status_def VALID_STATUSES_def js_def)
qed

lemma valid_status_cases: "valid_status b \<in> {js ''info'', js ''ok'', js ''error''}"
  using status_of_row [of b]
  by (cases "get_prop b (js ''status'')") (auto simp add: build_row_def)

lemma text_fault_valid_status: "text_fault (valid_status b) = None"
proof -
  have "text_fault (js ''info'') = None" "text_fault (js ''ok'') = None" "text_fault (js ''error'') = None"
    by code_simp+
  with valid_status_cases [of b] show ?thesis by auto
qed

text \<open>
  Claim C6. When the Edge Function accepts a submission (status 201), it appends one row
  whose \<open>status\<close> is the submitted \<open>status\<close> if that is one of the strings \<open>info\<close>,
  \<open>ok\<close>, \<open>error\<close>, and \<open>info\<close> otherwise (the field absent, not a string, or any other
  string). The \<open>status\<close> field never causes a rejection: giving a submission any \<open>status\<close>
  value at all leaves the response as it is.
\<close>

theorem status_normalised:
  "(sw_log e pf rq db = (Some rsp, db') \<and> status_code rsp = 201 \<and> parsed rq = Some b \<longrightarrow>
      (\<exists>l. sw_event_log db' = sw_event_log db @ [l] \<and>
           status l =
             (if get_prop b (js ''status'') \<in> {Some (JStr (js ''info'')), Some (JStr (js ''ok'')), Some (JStr (js ''error''))}
              then the_string (get_prop b (js ''status'')) else js ''info'')))
   \<and> fst (sw_log e pf \<lparr>http_method = m, parsed = Some (JObj ((js ''status'', v) # kvs))\<rparr> db) =
       fst (sw_log e pf \<lparr>http_method = m, parsed = Some (JObj kvs)\<rparr> db)"
proof (intro conjI impI)
  assume a: "sw_log e pf rq db = (Some rsp, db') \<and> status_code rsp = 201 \<and> parsed rq = Some b"
  let ?l = "new_event (column_defaults pf) (r_trace_id (build_row b)) (stringify_row (build_row b))"
  from a sw_log_201 [of e pf rq db rsp db']
  have "db' = db\<lparr>sw_event_log := sw_event_log db @ [?l]\<rparr>"
    by auto
  then have "sw_event_log db' = sw_event_log db @ [?l]"
    by simp
  moreover have "status ?l = r_status (build_row b)"
    by (simp add: new_event_def stringify_row_def)
  ultimately show "\<exists>l. sw_event_log db' = sw_event_log db @ [l] \<and>
           status l =
             (if get_prop b (js ''status'') \<in> {Some (JStr (js ''info'')), Some (JStr (js ''ok'')), Some (JStr (js ''error''))}
              then the_string (get_prop b (js ''status'')) else js ''info'')"
    using status_of_row [of b] by metis
next
  have "row_fault (stringify_row (build_row (JObj ((js ''status'', v) # kvs)))) =
        row_fault (stringify_row (build_row (JObj kvs)))"
    by (simp add: row_fault_def stringify_row_def build_row_def text_fault_valid_status js_def)
  then show "fst (sw_log e pf \<lparr>http_method = m, parsed = Some (JObj ((js ''status'', v) # kvs))\<rparr> db) =
       fst (sw_log e pf \<lparr>http_method = m, parsed = Some (JObj kvs)\<rparr> db)"
    by (intro sw_log_cong) (simp_all add: REQUIRED_FIELDS_def js_def)
qed

lemma example_run:
  "sw_log example_env example_platform example_request empty_database = (Some example_created, example_database)"
  by code_simp

theorem status_normalised_witness:
  "sw_log example_env example_platform example_request empty_database = (Some example_created, example_database)
   \<and> status_code example_created = 201 \<and> parsed example_request = Some example_body
   \<and> get_prop example_body (js ''status'') = None
   \<and> (\<exists>l. sw_event_log example_database = sw_event_log empty_database @ [l] \<and> status l = js ''info'')"
proof -
  have a: "sw_log example_env example_platform example_request empty_database = (Some example_created, example_database)"
    by (rule example_run)
  have b: "status_code example_created = 201" by (simp add: example_created_def)
  have c: "parsed example_request = Some example_body" by (simp add: example_request_def)
  have d: "get_prop example_body (js ''status'') = None" by code_simp
  from status_normalised [of example_env example_platform example_request empty_database
      example_created example_database example_body] a b c d
  show ?thesis by simp
qed

lemma round_nearest: "\<bar>of_int \<lfloor>x + 1 / 2\<rfloor> - x\<bar> \<le> (1 / 2 :: rat)"
  by linarith

lemma duration_of_row:
  "int4_value (r_duration_ms (stringify_row (build_row b))) =
     (case get_prop b (js ''duration_ms'') of
        Some (JNum (Finite x)) \<Rightarrow> Some \<lfloor>x + 1 / 2\<rfloor>
      | _ \<Rightarrow> None)"
proof (cases "get_prop b (js ''duration_ms'')")
  case None
  then show ?thesis by (simp add: build_row_def stringify_row_def)
next
  case (Some v)
  show ?thesis
  proof (cases v)
    case (JNum x)
    with Some show ?thesis by (cases x) (simp_all add: build_row_def stringify_row_def)
  qed (use Some in \<open>simp_all add: build_row_def stringify_row_def\<close>)
qed

lemma int4_fault_integer: "int4_range n \<Longrightarrow> int4_fault (Some (Finite (of_int n))) = None"
proof -
  assume a: "int4_range n"
  then have "\<bar>n\<bar> < 10 ^ 21"
    unfolding int4_range_def by (simp, linarith)
  then have "rat_of_int \<bar>n\<bar> < rat_of_int (10 ^ 21)"
    by (simp only: of_int_less_iff)
  then have "\<not> 10 ^ 21 \<le> \<bar>rat_of_int n\<bar>"
    by simp
  with a show ?thesis by simp
qed

text \<open>
  What the Edge Function stores for a finite \<open>duration_ms\<close>. When it accepts a
  submission, the row it appends has \<open>duration_ms\<close> equal to the submitted number rounded
  to the nearest integer (at most one half away from it, a tie going up) whenever the
  submitted value is a finite number, and \<open>NULL\<close> whenever the field is absent or is not
  a finite number. A negative or fractional number is no ground for rejection: as long as
  the rounded value fits the \<open>INTEGER\<close> column, the response is the one given to the same
  submission with \<open>duration_ms\<close> null.
\<close>

lemma finite_duration_rounded:
  "(sw_log e pf rq db = (Some rsp, db') \<and> status_code rsp = 201 \<and> parsed rq = Some b \<longrightarrow>
      (\<exists>l. sw_event_log db' = sw_event_log db @ [l] \<and>
           (\<forall>x. get_prop b (js ''duration_ms'') = Some (JNum (Finite x)) \<longrightarrow>
                duration_ms l = Some \<lfloor>x + 1 / 2\<rfloor> \<and> \<bar>of_int \<lfloor>x + 1 / 2\<rfloor> - x\<bar> \<le> 1 / 2) \<and>
           ((\<forall>x. get_prop b (js ''duration_ms'') \<noteq> Some (JNum (Finite x))) \<longrightarrow> duration_ms l = None)))
   \<and> (int4_range \<lfloor>y + 1 / 2\<rfloor> \<longrightarrow>
        fst (sw_log e pf \<lparr>http_method = m, parsed = Some (JObj ((js ''duration_ms'', JNum (Finite y)) # kvs))\<rparr> db) =
        fst (sw_log e pf \<lparr>http_method = m, parsed = Some (JObj ((js ''duration_ms'', JNull) # kvs))\<rparr> db))"
proof (intro conjI impI)
  assume a: "sw_log e pf rq db = (Some rsp, db') \<and> status_code rsp = 201 \<and> parsed rq = Some b"
  let ?l = "new_event (column_defaults pf) (r_trace_id (build_row b)) (stringify_row (build_row b))"
  from a sw_log_201 [of e pf rq db rsp db']
  have "db' = db\<lparr>sw_event_log := sw_event_log db @ [?l]\<rparr>"
    by auto
  then have 1: "sw_event_log db' = sw_event_log db @ [?l]"
    by simp
  have 2: "duration_ms ?l = int4_value (r_duration_ms (stringify_row (build_row b)))"
    by (simp add: new_event_def)
  have 3: "\<forall>x. get_prop b (js ''duration_ms'') = Some (JNum (Finite x)) \<longrightarrow>
                duration_ms ?l = Some \<lfloor>x + 1 / 2\<rfloor> \<and> \<bar>of_int \<lfloor>x + 1 / 2\<rfloor> - x\<bar> \<le> 1 / 2"
    using round_nearest by (simp add: 2 duration_of_row)
  have 4: "(\<forall>x. get_prop b (js ''duration_ms'') \<noteq> Some (JNum (Finite x))) \<longrightarrow> duration_ms ?l = None"
    by (auto simp add: 2 duration_of_row split: option.splits json.splits number.splits)
  from 1 3 4 show "\<exists>l. sw_event_log db' = sw_event_log db @ [l] \<and>
           (\<forall>x. get_prop b (js ''duration_ms'') = Some (JNum (Finite x)) \<longrightarrow>
                duration_ms l = Some \<lfloor>x + 1 / 2\<rfloor> \<and> \<bar>of_int \<lfloor>x + 1 / 2\<rfloor> - x\<bar> \<le> 1 / 2) \<and>
           ((\<forall>x. get_prop b (js ''duration_ms'') \<noteq> Some (JNum (Finite x))) \<longrightarrow> duration_ms l = None)"
    by blast
next
  assume "int4_range \<lfloor>y + 1 / 2\<rfloor>"
  then have "int4_fault (Some (Finite (of_int \<lfloor>y + 1 / 2\<rfloor>))) = None"
    by (rule int4_fault_integer)
  then have "row_fault (stringify_row (build_row (JObj ((js ''duration_ms'', JNum (Finite y)) # kvs)))) =
        row_fault (stringify_row (build_row (JObj ((js ''duration_ms'', JNull) # kvs))))"
    by (simp add: row_fault_def stringify_row_def build_row_def valid_status_def js_def)
  then show "fst (sw_log e pf \<lparr>http_method = m, parsed = Some (JObj ((js ''duration_ms'', JNum (Finite y)) # kvs))\<rparr> db) =
        fst (sw_log e pf \<lparr>http_method = m, parsed = Some (JObj ((js ''duration_ms'', JNull) # kvs))\<rparr> db)"
    by (intro sw_log_cong) (simp_all add: REQUIRED_FIELDS_def js_def)
qed

text \<open>
  Claim C10. The claim fails where the submitted \<open>duration_ms\<close> is a number that
  \<open>req.json()\<close> reads as an infinity (the literal \<open>1e400\<close>): its \<open>typeof\<close> is \<open>number\<close> and
  \<open>Math.round\<close> returns it, \<open>JSON.stringify\<close> writes it as \<open>null\<close>, and the submission
  is accepted with status 201 and \<open>NULL\<close> stored, not the number rounded.
\<close>

theorem infinite_duration_stored_null:
  "get_prop (JObj overflow_fields) (js ''duration_ms'') = Some (JNum PlusInfinity)
   \<and> typeof (Some (JNum PlusInfinity)) = ''number''
   \<and> sw_log example_env example_platform \<lparr>http_method = ''POST'', parsed = Some (JObj overflow_fields)\<rparr>
        empty_database = (Some example_created, overflow_database)
   \<and> status_code example_created = 201
   \<and> map duration_ms (sw_event_log overflow_database) = [None]"
proof -
  have "get_prop (JObj overflow_fields) (js ''duration_ms'') = Some (JNum PlusInfinity)"
    by code_simp
  moreover have "sw_log example_env example_platform \<lparr>http_method = ''POST'', parsed = Some (JObj overflow_fields)\<rparr>
        empty_database = (Some example_created, overflow_database)"
    by code_simp
  moreover have "status_code example_created = 201"
    by (simp add: example_created_def)
  moreover have "map duration_ms (sw_event_log overflow_database) = [None]"
    by (simp add: overflow_database_def)
  ultimately show ?thesis by simp
qed

lemma js_trim_Nil: "js_trim [] = []"
  by (simp add: js_trim_def)

lemma invalid_required_iff:
  "invalid_required v = (v = None \<or> (\<exists>w. v = Some w \<and> (\<forall>s. w \<noteq> JStr s)) \<or> (\<exists>s. v = Some (JStr s) \<and> js_trim s = []))"
proof (cases v)
  case None
  then show ?thesis by (simp add: invalid_required_def)
next
  case (Some w)
  then show ?thesis by (cases w) (auto simp add: invalid_required_def js_trim_Nil)
qed

lemma sw_log_missing_field:
  assumes "find (\<lambda>field. invalid_required (get_prop b field)) REQUIRED_FIELDS = Some g" and "b \<noteq> JNull"
  shows "sw_log e pf \<lparr>http_method = ''POST'', parsed = Some b\<rparr> db =
           (Some (jsonError (js ''Missing or invalid required field: '' @ g) 400), db)"
  using assms by (simp add: sw_log_def validate_and_insert_def)

text \<open>
  What the loop over \<open>REQUIRED_FIELDS\<close> does for every body but \<open>null\<close> (an object, an
  array, a string, a number or a boolean): when one of \<open>trace_id\<close>, \<open>source\<close>,
  \<open>event_type\<close> is absent, is not a string, or is empty after trimming, the answer is
  status 400 with the body \<open>{ ok: false, error }\<close>, where the error text names a required
  field that is itself absent, not a string or empty after trimming; the database is left
  as it was.
\<close>

lemma invalid_required_field_rejected:
  assumes "b \<noteq> JNull" and "f \<in> set REQUIRED_FIELDS"
    and "get_prop b f = None \<or> (\<exists>w. get_prop b f = Some w \<and> (\<forall>s. w \<noteq> JStr s))
         \<or> (\<exists>s. get_prop b f = Some (JStr s) \<and> js_trim s = [])"
  shows "\<exists>g rsp. g \<in> set REQUIRED_FIELDS
           \<and> (get_prop b g = None \<or> (\<exists>w. get_prop b g = Some w \<and> (\<forall>s. w \<noteq> JStr s))
                \<or> (\<exists>s. get_prop b g = Some (JStr s) \<and> js_trim s = []))
           \<and> sw_log e pf \<lparr>http_method = ''POST'', parsed = Some b\<rparr> db = (Some rsp, db)
           \<and> body rsp = Some (JObj [(js ''ok'', JBool False),
                                     (js ''error'', JStr (js ''Missing or invalid required field: '' @ g))])
           \<and> status_code rsp = 400"
proof -
  from assms(3) have "invalid_required (get_prop b f)"
    by (simp add: invalid_required_iff)
  with assms(2) have "find (\<lambda>field. invalid_required (get_prop b field)) REQUIRED_FIELDS \<noteq> None"
    by (auto simp add: find_None_iff)
  then obtain g where g: "find (\<lambda>field. invalid_required (get_prop b field)) REQUIRED_FIELDS = Some g"
    by blast
  then have "g \<in> set REQUIRED_FIELDS" and "invalid_required (get_prop b g)"
    by (auto simp add: find_Some_iff)
  then have "g \<in> set REQUIRED_FIELDS \<and> (get_prop b g = None \<or> (\<exists>w. get_prop b g = Some w \<and> (\<forall>s. w \<noteq> JStr s))
                \<or> (\<exists>s. get_prop b g = Some (JStr s) \<and> js_trim s = []))"
    by (simp add: invalid_required_iff)
  moreover from g assms(1) have "sw_log e pf \<lparr>http_method = ''POST'', parsed = Some b\<rparr> db =
           (Some (jsonError (js ''Missing or invalid required field: '' @ g) 400), db)"
    by (intro sw_log_missing_field)
  moreover have "body (jsonError (js ''Missing or invalid required field: '' @ g) 400) =
      Some (JObj [(js ''ok'', JBool False), (js ''error'', JStr (js ''Missing or invalid required field: '' @ g))])"
    and "status_code (jsonError (js ''Missing or invalid required field: '' @ g) 400) = 400"
    by (simp_all add: jsonError_def)
  ultimately show ?thesis
    by blast
qed

text \<open>
  Claim C2. The claim fails where the body of the POST is the JSON value \<open>null\<close>, in which
  every required field is absent: \<open>req.json()\<close> gives \<open>null\<close>, the first \<open>body[field]\<close> of
  the loop throws a TypeError that the handler does not catch, and no response
  \<open>{ ok: false, error }\<close> with a client-error status is made. The database is left as it
  was.
\<close>

theorem null_body_throws:
  "sw_log e pf \<lparr>http_method = ''POST'', parsed = Some JNull\<rparr> db = (None, db)"
  by (simp add: sw_log_def)

lemma hex_class_digit: "hex_class c = hex_digit c"
proof
  assume "hex_digit c"
  then show "hex_class c"
    by (auto simp add: hex_digit_def hex_class_def)
next
  assume "hex_class c"
  then have "unat c \<in> {48..57} \<union> {97..102} \<union> {65..70}"
    unfolding hex_class_def by (auto simp add: word_le_nat_alt)
  then have "unat c \<in> {48, 49, 50, 51, 52, 53, 54, 55, 56, 57, 97, 98, 99, 100, 101, 102, 65, 66, 67, 68, 69, 70}"
    by (elim UnE) (simp_all, presburger+)
  then have "c \<in> of_nat ` {48, 49, 50, 51, 52, 53, 54, 55, 56, 57, 97, 98, 99, 100, 101, 102, 65, 66, 67, 68, 69, 70}"
    by (metis imageI of_nat_unat ucast_id)
  then show "hex_digit c"
    by (simp add: hex_digit_def)
qed

lemma match_hex_append:
  "length h = n \<Longrightarrow> list_all hex_class h \<Longrightarrow> match_hex n (h @ r) = Some r"
  by (induction n "h @ r" arbitrary: h rule: match_hex.induct) (auto simp add: Cons_eq_append_conv)

lemma match_hex_Some:
  "match_hex n s = Some r \<Longrightarrow> \<exists>h. s = h @ r \<and> length h = n \<and> list_all hex_class h"
proof (induction n s rule: match_hex.induct)
  case (1 s)
  then show ?case by simp
next
  case (2 n)
  then show ?case by simp
next
  case (3 n c s)
  then have "hex_class c" and "match_hex n s = Some r"
    by (auto split: if_splits)
  with 3 obtain h where "s = h @ r" "length h = n" "list_all hex_class h"
    by blast
  with \<open>hex_class c\<close> have "c # s = (c # h) @ r \<and> length (c # h) = Suc n \<and> list_all hex_class (c # h)"
    by simp
  then show ?case by blast
qed

lemma match_dash_Some: "match_dash s = Some r \<longleftrightarrow> s = 0x2D # r"
  by (cases s) auto

lemma UUID_RE_test_canonical: "UUID_RE_test s = canonical_uuid_text s"
proof
  assume "canonical_uuid_text s"
  then obtain g1 g2 g3 g4 g5 where s: "s = g1 @ js ''-'' @ g2 @ js ''-'' @ g3 @ js ''-'' @ g4 @ js ''-'' @ g5"
    and l: "length g1 = 8" "length g2 = 4" "length g3 = 4" "length g4 = 4" "length g5 = 12"
    and h: "list_all hex_digit (g1 @ g2 @ g3 @ g4 @ g5)"
    unfolding canonical_uuid_text_def by blast
  from h have h': "list_all hex_class g1" "list_all hex_class g2" "list_all hex_class g3"
    "list_all hex_class g4" "list_all hex_class g5"
    by (simp_all add: hex_class_digit [abs_def])
  have 5: "match_hex 12 g5 = Some []"
    using match_hex_append [OF l(5) h'(5), of "[]"] by simp
  show "UUID_RE_test s"
    unfolding UUID_RE_test_def UUID_RE_def s
    by (simp add: js_def match_hex_append [OF l(1) h'(1)] match_hex_append [OF l(2) h'(2)]
        match_hex_append [OF l(3) h'(3)] match_hex_append [OF l(4) h'(4)] 5)
next
  assume "UUID_RE_test s"
  then obtain s1 s2 s3 s4 s5 s6 s7 s8 where
    m: "match_hex 8 s = Some s1" "match_dash s1 = Some s2" "match_hex 4 s2 = Some s3"
       "match_dash s3 = Some s4" "match_hex 4 s4 = Some s5" "match_dash s5 = Some s6"
       "match_hex 4 s6 = Some s7" "match_dash s7 = Some s8" "match_hex 12 s8 = Some []"
    unfolding UUID_RE_test_def UUID_RE_def by (auto split: option.splits)
  from match_hex_Some [OF m(1)] obtain g1 where g1: "s = g1 @ s1" "length g1 = 8" "list_all hex_class g1" by blast
  from match_hex_Some [OF m(3)] obtain g2 where g2: "s2 = g2 @ s3" "length g2 = 4" "list_all hex_class g2" by blast
  from match_hex_Some [OF m(5)] obtain g3 where g3: "s4 = g3 @ s5" "length g3 = 4" "list_all hex_class g3" by blast
  from match_hex_Some [OF m(7)] obtain g4 where g4: "s6 = g4 @ s7" "length g4 = 4" "list_all hex_class g4" by blast
  from match_hex_Some [OF m(9)] obtain g5 where g5: "s8 = g5 @ []" "length g5 = 12" "list_all hex_class g5" by blast
  from m(2,4,6,8) have d: "s1 = 0x2D # s2" "s3 = 0x2D # s4" "s5 = 0x2D # s6" "s7 = 0x2D # s8"
    by (simp_all add: match_dash_Some)
  have "s = g1 @ js ''-'' @ g2 @ js ''-'' @ g3 @ js ''-'' @ g4 @ js ''-'' @ g5"
    by (simp add: g1(1) g2(1) g3(1) g4(1) g5(1) d js_def)
  moreover have "list_all hex_digit (g1 @ g2 @ g3 @ g4 @ g5)"
    using g1(3) g2(3) g3(3) g4(3) g5(3) by (simp add: hex_class_digit [abs_def])
  ultimately show "canonical_uuid_text s"
    unfolding canonical_uuid_text_def using g1(2) g2(2) g3(2) g4(2) g5(2) by blast
qed

lemma hex_class_not_whitespace: "hex_class c \<Longrightarrow> \<not> is_js_whitespace c"
  unfolding hex_class_def is_js_whitespace_def by unat_arith

lemma UUID_RE_test_starts_hex: "UUID_RE_test s \<Longrightarrow> \<exists>c r. s = c # r \<and> hex_class c"
  unfolding UUID_RE_test_def UUID_RE_def
  by (cases s) (auto simp add: numeral_eq_Suc split: option.splits if_splits)

lemma js_trim_not_Nil:
  assumes "s = c # r" and "\<not> is_js_whitespace c"
  shows "js_trim s \<noteq> []"
  using assms by (auto simp add: js_trim_def dropWhile_eq_Nil_conv)

lemma UUID_RE_test_required: "UUID_RE_test s \<Longrightarrow> \<not> invalid_required (Some (JStr s))"
proof -
  assume "UUID_RE_test s"
  then obtain c r where "s = c # r" "hex_class c"
    using UUID_RE_test_starts_hex by blast
  then have "s \<noteq> []" and "js_trim s \<noteq> []"
    using js_trim_not_Nil hex_class_not_whitespace by auto
  then show ?thesis by (simp add: invalid_required_def)
qed

lemma find_REQUIRED_FIELDS:
  "find P REQUIRED_FIELDS =
     (if P (js ''trace_id'') then Some (js ''trace_id'')
      else if P (js ''source'') then Some (js ''source'')
      else if P (js ''event_type'') then Some (js ''event_type'') else None)"
  by (simp add: REQUIRED_FIELDS_def)

lemma insert_sw_event_log_service:
  assumes "g service_role INSERT" and "UUID_RE_test (r_trace_id r)" and "row_fault r = None"
    and "gen_random_uuid d \<notin> row_id ` set (sw_event_log db)"
  shows "insert_sw_event_log g service_client d r db =
           Inr (gen_random_uuid d, db\<lparr>sw_event_log := sw_event_log db @ [new_event d (toLowerCase (r_trace_id r)) r]\<rparr>)"
  using assms by (simp add: insert_sw_event_log_def service_client_def bypasses_rls_def uuid_in_def)

lemma v_trace_timeline_member:
  assumes "v_trace_timeline db t out" and "l \<in> set (sw_event_log db)" and "trace_id l = t"
  shows "timeline_columns l \<in> set out"
proof -
  from assms(1) have "set out = set (filter (\<lambda>r. tl_trace_id r = t) (map timeline_columns (sw_event_log db)))"
    unfolding v_trace_timeline_def order_by_def by (metis set_mset_mset)
  moreover have "tl_trace_id (timeline_columns l) = t"
    using assms(3) by (simp add: timeline_columns_def)
  ultimately show ?thesis using assms(2) by auto
qed

lemma v_trace_timeline_exists: "\<exists>out. v_trace_timeline db t out"
proof -
  let ?rows = "filter (\<lambda>r. tl_trace_id r = t) (map timeline_columns (sw_event_log db))"
  have "sorted_wrt (\<lambda>a b. tl_created_at a \<le> tl_created_at b) (sort_key tl_created_at ?rows)"
    using sorted_sort_key [of tl_created_at ?rows] by (simp only: sorted_map)
  then have "sorted_wrt timeline_order (sort_key tl_created_at ?rows)"
    by (rule sorted_wrt_mono_rel [rotated]) (auto simp add: timeline_order_def)
  then have "v_trace_timeline db t (sort_key tl_created_at ?rows)"
    by (simp add: v_trace_timeline_def order_by_def)
  then show ?thesis by blast
qed

lemma select_timeline_canonical:
  "canonical_uuid_text q \<Longrightarrow> select_timeline db q out = v_trace_timeline db (toLowerCase q) out"
  by (simp add: select_timeline_def uuid_in_def UUID_RE_test_canonical)

lemma sw_log_valid_trace_id:
  assumes t: "map_of kvs (js ''trace_id'') = Some (JStr s)" "UUID_RE_test s"
    and src: "map_of kvs (js ''source'') = Some (JStr s1)" "js_trim s1 \<noteq> []"
    and evt: "map_of kvs (js ''event_type'') = Some (JStr s2)" "js_trim s2 \<noteq> []"
    and env: "SUPABASE_URL e = Some (project_url pf)" "project_url pf \<noteq> []"
      "SUPABASE_SERVICE_ROLE_KEY e = Some (service_role_key pf)" "service_role_key pf \<noteq> []"
    and store: "reachable pf" "table_grants pf service_role INSERT" "table_grants pf service_role SELECT"
      "gen_random_uuid (column_defaults pf) \<notin> row_id ` set (sw_event_log db)"
      "row_fault (stringify_row (build_row (JObj kvs))) = None"
  shows "sw_log e pf \<lparr>http_method = ''POST'', parsed = Some (JObj kvs)\<rparr> db =
           (Some \<lparr>status_code = 201,
                  body = Some (JObj [(js ''ok'', JBool True), (js ''id'', JStr (gen_random_uuid (column_defaults pf)))])\<rparr>,
            db\<lparr>sw_event_log := sw_event_log db @
                 [new_event (column_defaults pf) (toLowerCase s) (stringify_row (build_row (JObj kvs)))]\<rparr>)"
proof -
  let ?b = "JObj kvs"
  have s1: "s1 \<noteq> []" and s2: "s2 \<noteq> []"
    using src(2) evt(2) by (auto simp add: js_trim_def)
  have f: "find (\<lambda>field. invalid_required (get_prop ?b field)) REQUIRED_FIELDS = None"
    using UUID_RE_test_required [OF t(2)] t(1) src evt s1 s2
    by (simp add: find_REQUIRED_FIELDS invalid_required_def)
  have r1: "r_trace_id (stringify_row (build_row ?b)) = toLowerCase s"
    using t(1) by (simp add: build_row_def stringify_row_def)
  have "insert_sw_event_log (table_grants pf) service_client (column_defaults pf) (stringify_row (build_row ?b)) db =
      Inr (gen_random_uuid (column_defaults pf),
           db\<lparr>sw_event_log := sw_event_log db @
             [new_event (column_defaults pf) (toLowerCase (r_trace_id (stringify_row (build_row ?b))))
                (stringify_row (build_row ?b))]\<rparr>)"
    by (rule insert_sw_event_log_service) (simp_all add: store r1 UUID_RE_test_lower t(2))
  then have "insert_and_respond e pf (build_row ?b) db =
      (\<lparr>status_code = 201,
        body = Some (JObj [(js ''ok'', JBool True), (js ''id'', JStr (gen_random_uuid (column_defaults pf)))])\<rparr>,
       db\<lparr>sw_event_log := sw_event_log db @
            [new_event (column_defaults pf) (toLowerCase s) (stringify_row (build_row ?b))]\<rparr>)"
    by (simp add: insert_and_respond_def supabase_insert_def env store(1,3) r1 toLowerCase_idem)
  with f t env show ?thesis
    by (simp add: sw_log_def validate_and_insert_def)
qed

lemma sw_log_invalid_trace_id:
  assumes "\<not> (\<exists>s. map_of kvs (js ''trace_id'') = Some (JStr s) \<and> UUID_RE_test s)"
  shows "\<exists>r. sw_log e pf \<lparr>http_method = ''POST'', parsed = Some (JObj kvs)\<rparr> db = (Some r, db)
             \<and> status_code r = 400"
proof (cases "find (\<lambda>field. invalid_required (get_prop (JObj kvs) field)) REQUIRED_FIELDS")
  case (Some g)
  then show ?thesis
    by (simp add: sw_log_def validate_and_insert_def status_code_jsonError)
next
  case None
  then have "\<not> invalid_required (map_of kvs (js ''trace_id''))"
    by (simp add: find_REQUIRED_FIELDS split: if_splits)
  then obtain s where "map_of kvs (js ''trace_id'') = Some (JStr s)"
    by (auto simp add: invalid_required_iff)
  with assms have "\<not> UUID_RE_test (the_string (get_prop (JObj kvs) (js ''trace_id'')))"
    by simp
  with None show ?thesis
    by (simp add: sw_log_def validate_and_insert_def status_code_jsonError)
qed

text \<open>
  Claim C3. Take a POST whose body is a JSON object with valid \<open>source\<close> and
  \<open>event_type\<close>, an environment that holds the project's URL and service-role key, and
  a store that takes the insert (reachable, the service role granted \<open>INSERT\<close> and
  \<open>SELECT\<close>, a fresh id, and no value of the row, \<open>trace_id\<close> apart, that its column
  refuses). The submission is accepted (status 201) if and only if
  its \<open>trace_id\<close> is a string in the canonical 8-4-4-4-12 hexadecimal form, of either
  case; otherwise it is answered with status 400 and nothing is stored. An accepted
  \<open>trace_id\<close> is stored in lowercase. The timeline query for a text that spells the same
  UUID in any case has a result, every result of it holds the record, and its results
  are those of the query for the text as it was submitted.
\<close>

theorem trace_id_normalised:
  assumes src: "map_of kvs (js ''source'') = Some (JStr s1)" "js_trim s1 \<noteq> []"
    and evt: "map_of kvs (js ''event_type'') = Some (JStr s2)" "js_trim s2 \<noteq> []"
    and env: "SUPABASE_URL e = Some (project_url pf)" "project_url pf \<noteq> []"
      "SUPABASE_SERVICE_ROLE_KEY e = Some (service_role_key pf)" "service_role_key pf \<noteq> []"
    and store: "reachable pf" "table_grants pf service_role INSERT" "table_grants pf service_role SELECT"
      "gen_random_uuid (column_defaults pf) \<notin> row_id ` set (sw_event_log db)"
      "row_fault (stringify_row (build_row (JObj kvs))) = None"
    and run: "sw_log e pf \<lparr>http_method = ''POST'', parsed = Some (JObj kvs)\<rparr> db = (rsp, db')"
  shows "((\<exists>r. rsp = Some r \<and> status_code r = 201) \<longleftrightarrow>
            (\<exists>s. map_of kvs (js ''trace_id'') = Some (JStr s) \<and> canonical_uuid_text s))
       \<and> ((\<nexists>s. map_of kvs (js ''trace_id'') = Some (JStr s) \<and> canonical_uuid_text s) \<longrightarrow>
            (\<exists>r. rsp = Some r \<and> status_code r = 400) \<and> db' = db)
       \<and> (\<forall>s. map_of kvs (js ''trace_id'') = Some (JStr s) \<and> canonical_uuid_text s \<longrightarrow>
            (\<exists>l. sw_event_log db' = sw_event_log db @ [l] \<and> trace_id l = toLowerCase s \<and>
               (\<forall>q. canonical_uuid_text q \<and> toLowerCase q = toLowerCase s \<longrightarrow>
                  uuid_in q = Some (trace_id l)
                  \<and> (\<exists>out. select_timeline db' q out)
                  \<and> (\<forall>out. select_timeline db' q out \<longrightarrow> timeline_columns l \<in> set out)
                  \<and> (\<forall>out. select_timeline db' q out = select_timeline db' s out))))"
proof (cases "\<exists>s. map_of kvs (js ''trace_id'') = Some (JStr s) \<and> canonical_uuid_text s")
  case True
  then obtain s where s: "map_of kvs (js ''trace_id'') = Some (JStr s)" "UUID_RE_test s"
    and cs: "canonical_uuid_text s"
    by (auto simp add: UUID_RE_test_canonical)
  let ?l = "new_event (column_defaults pf) (toLowerCase s) (stringify_row (build_row (JObj kvs)))"
  from sw_log_valid_trace_id [OF s src evt env store] run
  have rsp: "rsp = Some \<lparr>status_code = 201,
                  body = Some (JObj [(js ''ok'', JBool True), (js ''id'', JStr (gen_random_uuid (column_defaults pf)))])\<rparr>"
    and db': "db' = db\<lparr>sw_event_log := sw_event_log db @ [?l]\<rparr>"
    by simp_all
  have 1: "sw_event_log db' = sw_event_log db @ [?l]"
    by (simp add: db')
  have 2: "trace_id ?l = toLowerCase s"
    by (simp add: new_event_def)
  have 3: "uuid_in q = Some (trace_id ?l)
           \<and> (\<exists>out. select_timeline db' q out)
           \<and> (\<forall>out. select_timeline db' q out \<longrightarrow> timeline_columns ?l \<in> set out)
           \<and> (\<forall>out. select_timeline db' q out = select_timeline db' s out)"
    if q: "canonical_uuid_text q" "toLowerCase q = toLowerCase s" for q
  proof (intro conjI allI impI)
    show "uuid_in q = Some (trace_id ?l)"
      using q by (simp add: uuid_in_def UUID_RE_test_canonical 2)
    show "\<exists>out. select_timeline db' q out"
      using v_trace_timeline_exists [of db' "toLowerCase q"] by (simp add: select_timeline_canonical q(1))
    show "timeline_columns ?l \<in> set out" if "select_timeline db' q out" for out
    proof (rule v_trace_timeline_member)
      show "v_trace_timeline db' (toLowerCase s) out"
        using that q by (simp add: select_timeline_canonical)
      show "?l \<in> set (sw_event_log db')"
        by (simp add: 1)
      show "trace_id ?l = toLowerCase s"
        by (rule 2)
    qed
    show "select_timeline db' q out = select_timeline db' s out" for out
      using q cs by (simp add: select_timeline_canonical)
  qed
  from s(1) have "\<forall>s'. map_of kvs (js ''trace_id'') = Some (JStr s') \<longrightarrow> s' = s"
    by simp
  with 1 2 3 have "\<forall>s'. map_of kvs (js ''trace_id'') = Some (JStr s') \<and> canonical_uuid_text s' \<longrightarrow>
            (\<exists>l. sw_event_log db' = sw_event_log db @ [l] \<and> trace_id l = toLowerCase s' \<and>
               (\<forall>q. canonical_uuid_text q \<and> toLowerCase q = toLowerCase s' \<longrightarrow>
                  uuid_in q = Some (trace_id l)
                  \<and> (\<exists>out. select_timeline db' q out)
                  \<and> (\<forall>out. select_timeline db' q out \<longrightarrow> timeline_columns l \<in> set out)
                  \<and> (\<forall>out. select_timeline db' q out = select_timeline db' s' out)))"
    by blast
  with True rsp show ?thesis by simp
next
  case False
  then have "\<not> (\<exists>s. map_of kvs (js ''trace_id'') = Some (JStr s) \<and> UUID_RE_test s)"
    by (simp add: UUID_RE_test_canonical)
  from sw_log_invalid_trace_id [OF this, of e pf db] run
  obtain r where "rsp = Some r" "status_code r = 400" "db' = db"
    by auto
  with False show ?thesis by simp
qed

theorem trace_id_normalised_witness:
  "map_of example_fields (js ''source'') = Some (JStr (js '' test '')) \<and> js_trim (js '' test '') \<noteq> []
   \<and> map_of example_fields (js ''event_type'') = Some (JStr (js ''workflow.start''))
   \<and> js_trim (js ''workflow.start'') \<noteq> []
   \<and> SUPABASE_URL example_env = Some (project_url example_platform) \<and> project_url example_platform \<noteq> []
   \<and> SUPABASE_SERVICE_ROLE_KEY example_env = Some (service_role_key example_platform)
   \<and> service_role_key example_platform \<noteq> []
   \<and> reachable example_platform \<and> table_grants example_platform service_role INSERT
   \<and> table_grants example_platform service_role SELECT
   \<and> gen_random_uuid (column_defaults example_platform) \<notin> row_id ` set (sw_event_log empty_database)
   \<and> row_fault (stringify_row (build_row (JObj example_fields))) = None
   \<and> sw_log example_env example_platform \<lparr>http_method = ''POST'', parsed = Some (JObj example_fields)\<rparr>
        empty_database = (Some example_created, example_database)
   \<and> map_of example_fields (js ''trace_id'') = Some (JStr (js ''ABCDEF12-1111-1111-1111-11111111abCD''))
   \<and> sw_event_log example_database = sw_event_log empty_database @ [example_event]
   \<and> trace_id example_event = js ''abcdef12-1111-1111-1111-11111111abcd''
   \<and> select_timeline example_database (js ''ABCDEF12-1111-1111-1111-11111111ABCD'') [timeline_columns example_event]
   \<and> select_timeline example_database (js ''abcdef12-1111-1111-1111-11111111abcd'') [timeline_columns example_event]
   \<and> \<not> (\<exists>out. select_timeline example_database (js ''ABCDEF12-1111-1111-1111-11111111ABCD'') out
              \<and> timeline_columns example_event \<notin> set out)
   \<and> \<not> (\<exists>out. select_timeline example_database (js ''abcdef12-1111-1111-1111-11111111abcd'') out
              \<and> timeline_columns example_event \<notin> set out)"
proof -
  have h1: "map_of example_fields (js ''source'') = Some (JStr (js '' test ''))" by code_simp
  have h2: "js_trim (js '' test '') \<noteq> []" by code_simp
  have h3: "map_of example_fields (js ''event_type'') = Some (JStr (js ''workflow.start''))" by code_simp
  have h4: "js_trim (js ''workflow.start'') \<noteq> []" by code_simp
  have h5: "SUPABASE_URL example_env = Some (project_url example_platform)"
    by (simp add: example_env_def example_platform_def)
  have h5': "project_url example_platform \<noteq> []" by (simp add: example_platform_def js_def)
  have h6: "SUPABASE_SERVICE_ROLE_KEY example_env = Some (service_role_key example_platform)"
    by (simp add: example_env_def example_platform_def)
  have h6': "service_role_key example_platform \<noteq> []" by (simp add: example_platform_def js_def)
  have h7: "reachable example_platform" by (simp add: example_platform_def)
  have h8: "table_grants example_platform service_role INSERT" by (simp add: example_platform_def)
  have h8': "table_grants example_platform service_role SELECT" by (simp add: example_platform_def)
  have h9: "gen_random_uuid (column_defaults example_platform) \<notin> row_id ` set (sw_event_log empty_database)"
    by (simp add: empty_database_def)
  have h10: "row_fault (stringify_row (build_row (JObj example_fields))) = None" by code_simp
  have h11: "sw_log example_env example_platform \<lparr>http_method = ''POST'', parsed = Some (JObj example_fields)\<rparr>
        empty_database = (Some example_created, example_database)"
    using example_run by (simp add: example_request_def example_body_def)
  have t: "map_of example_fields (js ''trace_id'') = Some (JStr (js ''ABCDEF12-1111-1111-1111-11111111abCD''))"
    by code_simp
  have c: "canonical_uuid_text (js ''ABCDEF12-1111-1111-1111-11111111abCD'')"
    "canonical_uuid_text (js ''ABCDEF12-1111-1111-1111-11111111ABCD'')"
    "canonical_uuid_text (js ''abcdef12-1111-1111-1111-11111111abcd'')"
    unfolding UUID_RE_test_canonical [symmetric] by code_simp+
  have lo: "toLowerCase (js ''ABCDEF12-1111-1111-1111-11111111abCD'') = js ''abcdef12-1111-1111-1111-11111111abcd''"
    "toLowerCase (js ''ABCDEF12-1111-1111-1111-11111111ABCD'') = js ''abcdef12-1111-1111-1111-11111111abcd''"
    "toLowerCase (js ''abcdef12-1111-1111-1111-11111111abcd'') = js ''abcdef12-1111-1111-1111-11111111abcd''"
    by code_simp+
  have e1: "sw_event_log example_database = sw_event_log empty_database @ [example_event]"
    by (simp add: example_database_def empty_database_def)
  have e2: "trace_id example_event = js ''abcdef12-1111-1111-1111-11111111abcd''"
    by (simp add: example_event_def)
  note T = trace_id_normalised [OF h1 h2 h3 h4 h5 h5' h6 h6' h7 h8 h8' h9 h10 h11]
  note T3 = T [THEN conjunct2, THEN conjunct2, rule_format, OF conjI, OF t c(1)]
  from T3 obtain l where L:
    "sw_event_log example_database = sw_event_log empty_database @ [l] \<and>
     trace_id l = toLowerCase (js ''ABCDEF12-1111-1111-1111-11111111abCD'') \<and>
     (\<forall>q. canonical_uuid_text q \<and> toLowerCase q = toLowerCase (js ''ABCDEF12-1111-1111-1111-11111111abCD'') \<longrightarrow>
        uuid_in q = Some (trace_id l)
        \<and> (\<exists>out. select_timeline example_database q out)
        \<and> (\<forall>out. select_timeline example_database q out \<longrightarrow> timeline_columns l \<in> set out)
        \<and> (\<forall>out. select_timeline example_database q out =
                  select_timeline example_database (js ''ABCDEF12-1111-1111-1111-11111111abCD'') out))" ..
  note l = L [THEN conjunct1] L [THEN conjunct2, THEN conjunct2, rule_format, THEN conjunct2, THEN conjunct2, THEN conjunct1, rule_format]
  from l(1) e1 have "sw_event_log empty_database @ [l] = sw_event_log empty_database @ [example_event]"
    by (rule trans [OF sym])
  then have le: "l = example_event"
    by (simp only: same_append_eq list.inject)
  have k1: "canonical_uuid_text (js ''ABCDEF12-1111-1111-1111-11111111ABCD'') \<and>
      toLowerCase (js ''ABCDEF12-1111-1111-1111-11111111ABCD'') = toLowerCase (js ''ABCDEF12-1111-1111-1111-11111111abCD'')"
    and k2: "canonical_uuid_text (js ''abcdef12-1111-1111-1111-11111111abcd'') \<and>
      toLowerCase (js ''abcdef12-1111-1111-1111-11111111abcd'') = toLowerCase (js ''ABCDEF12-1111-1111-1111-11111111abCD'')"
    using c lo by simp_all
  have m1: "timeline_columns example_event \<in> set out"
    if "select_timeline example_database (js ''ABCDEF12-1111-1111-1111-11111111ABCD'') out" for out
    using l(2) [OF k1 that] le by simp
  have m2: "timeline_columns example_event \<in> set out"
    if "select_timeline example_database (js ''abcdef12-1111-1111-1111-11111111abcd'') out" for out
    using l(2) [OF k2 that] le by simp
  from m1 have n1: "\<not> (\<exists>out. select_timeline example_database (js ''ABCDEF12-1111-1111-1111-11111111ABCD'') out
              \<and> timeline_columns example_event \<notin> set out)"
    by blast
  from m2 have n2: "\<not> (\<exists>out. select_timeline example_database (js ''abcdef12-1111-1111-1111-11111111abcd'') out
              \<and> timeline_columns example_event \<notin> set out)"
    by blast
  have v: "v_trace_timeline example_database (js ''abcdef12-1111-1111-1111-11111111abcd'') [timeline_columns example_event]"
    by (simp add: v_trace_timeline_def order_by_def example_database_def timeline_columns_def example_event_def)
  have q1: "select_timeline example_database (js ''ABCDEF12-1111-1111-1111-11111111ABCD'') [timeline_columns example_event]"
    unfolding select_timeline_canonical [OF c(2)] lo(2) by (rule v)
  have q2: "select_timeline example_database (js ''abcdef12-1111-1111-1111-11111111abcd'') [timeline_columns example_event]"
    unfolding select_timeline_canonical [OF c(3)] lo(3) by (rule v)
  show ?thesis
    by (intro conjI h1 h2 h3 h4 h5 h5' h6 h6' h7 h8 h8' h9 h10 h11 t e1 e2 q1 q2 n1 n2)
qed

section \<open>Properties of the tables and the queries\<close>

lemma execute_plain_Insert_event:
  assumes "execute_plain g c (Insert_event d r) db = Inr db'"
  shows "\<exists>l. db' = db\<lparr>sw_event_log := sw_event_log db @ [l]\<rparr>"
proof -
  from assms obtain i where "insert_sw_event_log g c d r db = Inr (i, db')"
    by (auto split: sum.splits prod.splits)
  then show ?thesis using insert_sw_event_log_Inr by blast
qed

lemma execute_plain_Insert_artifact:
  assumes "execute_plain g c (Insert_artifact d a) db = Inr db'"
  shows "\<exists>l. db' = db\<lparr>sw_event_artifacts := sw_event_artifacts db @ [l]\<rparr>"
  using assms
  by (auto simp add: insert_sw_event_artifacts_def split: sum.splits if_splits prod.splits option.splits)

lemma execute_grows:
  assumes "execute g c s db = Inr db'"
  shows "\<exists>ys zs. sw_event_log db' = sw_event_log db @ ys \<and> sw_event_artifacts db' = sw_event_artifacts db @ zs"
proof (cases s)
  case (Insert_event d r)
  with assms have "execute_plain g c (Insert_event d r) db = Inr db'"
    by (auto simp add: execute_def split: sum.splits prod.splits)
  from execute_plain_Insert_event [OF this] show ?thesis by auto
next
  case (Insert_artifact d a)
  with assms have "execute_plain g c (Insert_artifact d a) db = Inr db'"
    by (auto simp add: execute_def split: sum.splits prod.splits)
  from execute_plain_Insert_artifact [OF this] show ?thesis by auto
qed (use assms in \<open>simp_all add: execute_def\<close>)

lemma session_grows:
  "\<exists>ys zs. sw_event_log (session g steps db) = sw_event_log db @ ys
          \<and> sw_event_artifacts (session g steps db) = sw_event_artifacts db @ zs"
proof (induction steps arbitrary: db)
  case Nil
  show ?case by simp
next
  case (Cons step steps)
  obtain c s where step: "step = (c, s)" by (cases step)
  show ?case
  proof (cases "execute g c s db")
    case (Inl e)
    with step Cons [of db] show ?thesis by simp
  next
    case (Inr db1)
    from execute_grows [OF Inr] obtain ys zs where
      1: "sw_event_log db1 = sw_event_log db @ ys" "sw_event_artifacts db1 = sw_event_artifacts db @ zs"
      by blast
    from Cons [of db1] obtain ys' zs' where
      2: "sw_event_log (session g steps db1) = sw_event_log db1 @ ys'"
         "sw_event_artifacts (session g steps db1) = sw_event_artifacts db1 @ zs'"
      by blast
    from 1 2 step Inr show ?thesis by simp
  qed
qed

text \<open>
  Claim C1. With the rules of the migrations in place, an \<open>UPDATE\<close> or a \<open>DELETE\<close> on
  either table, by any caller and with any privileges, succeeds and changes nothing; and
  after any sequence of statements by any callers, each table reads as it did before with
  new rows after the old ones: every row once written is read again with the fields it
  was written with.
\<close>

theorem append_only:
  "execute g c (Update_event w f) db = Inr db \<and> execute g c (Delete_event w) db = Inr db
   \<and> execute g c (Update_artifact w' f') db = Inr db \<and> execute g c (Delete_artifact w') db = Inr db
   \<and> (\<exists>ys zs. sw_event_log (session g steps db) = sw_event_log db @ ys
            \<and> sw_event_artifacts (session g steps db) = sw_event_artifacts db @ zs)"
  using session_grows [of g steps db] by (simp add: execute_def)

text \<open>Without the rules the service role could remove every row.\<close>

lemma execute_plain_deletes:
  "execute_plain (table_grants example_platform) service_client (Delete_event (\<lambda>l. True)) example_database
     = Inr empty_database"
  by (simp add: example_platform_def service_client_def bypasses_rls_def example_database_def empty_database_def)

theorem append_only_witness:
  "session (table_grants example_platform)
     [(service_client, Delete_event (\<lambda>l. True)),
      (administrator, Update_event (\<lambda>l. True) (\<lambda>l. l\<lparr>status := js ''ok''\<rparr>))]
     example_database = example_database"
proof -
  have "execute (table_grants example_platform) service_client (Delete_event (\<lambda>l. True)) example_database
          = Inr example_database"
    and "execute (table_grants example_platform) administrator
           (Update_event (\<lambda>l. True) (\<lambda>l. l\<lparr>status := js ''ok''\<rparr>)) example_database = Inr example_database"
    using append_only [of "table_grants example_platform" service_client "\<lambda>l. True" _ example_database]
      append_only [of "table_grants example_platform" administrator "\<lambda>l. True"
        "\<lambda>l. l\<lparr>status := js ''ok''\<rparr>" example_database]
    by blast+
  then show ?thesis by simp
qed

lemma order_by_exists:
  assumes "\<And>a b. a \<in> set rows \<Longrightarrow> b \<in> set rows \<Longrightarrow> le a b = (key a \<le> key b)"
  shows "order_by le rows (sort_key key rows)"
proof -
  have "sorted_wrt (\<lambda>a b. key a \<le> key b) (sort_key key rows)"
    using sorted_sort_key [of key rows] by (simp add: sorted_map)
  then have "sorted_wrt le (sort_key key rows)"
    by (rule sorted_wrt_mono_rel [rotated]) (simp add: assms)
  then show ?thesis by (simp add: order_by_def)
qed

lemma order_by_set: "order_by le rows out \<Longrightarrow> set out = set rows"
  unfolding order_by_def by (metis set_mset_mset)

lemma timeline_rows:
  "filter (\<lambda>r. tl_trace_id r = t) (map timeline_columns (sw_event_log db)) =
   map timeline_columns (filter (\<lambda>l. trace_id l = t) (sw_event_log db))"
  by (simp add: filter_map comp_def timeline_columns_def)

text \<open>
  Claim C4, as amended. For every \<open>trace_id\<close> the timeline query has a result, and every
  result holds exactly the Events carrying that \<open>trace_id\<close> (each as many times as the table
  holds it, in the view's columns), in non-decreasing order of \<open>created_at\<close>. The view
  orders by \<open>trace_id\<close> and \<open>created_at\<close> only: it fixes no order among rows of equal
  \<open>created_at\<close>.
\<close>

theorem timeline_ordered:
  "(\<exists>out. v_trace_timeline db t out)
   \<and> (\<forall>out. v_trace_timeline db t out \<longrightarrow>
         mset out = mset (map timeline_columns (filter (\<lambda>l. trace_id l = t) (sw_event_log db)))
         \<and> (\<forall>r \<in> set out. tl_trace_id r = t)
         \<and> sorted (map tl_created_at out))"
proof (intro conjI allI impI)
  let ?rows = "filter (\<lambda>r. tl_trace_id r = t) (map timeline_columns (sw_event_log db))"
  have "order_by timeline_order ?rows (sort_key tl_created_at ?rows)"
    by (rule order_by_exists) (auto simp add: timeline_order_def)
  then show "\<exists>out. v_trace_timeline db t out"
    unfolding v_trace_timeline_def by blast
next
  fix out
  assume a: "v_trace_timeline db t out"
  then show "mset out = mset (map timeline_columns (filter (\<lambda>l. trace_id l = t) (sw_event_log db)))"
    by (simp add: v_trace_timeline_def order_by_def timeline_rows)
  from a have s: "set out = set (filter (\<lambda>r. tl_trace_id r = t) (map timeline_columns (sw_event_log db)))"
    unfolding v_trace_timeline_def by (rule order_by_set)
  then show t: "\<forall>r \<in> set out. tl_trace_id r = t"
    by auto
  from a have "sorted_wrt timeline_order out"
    by (simp add: v_trace_timeline_def order_by_def)
  then have "sorted_wrt (\<lambda>a b. tl_created_at a \<le> tl_created_at b) out"
    by (rule sorted_wrt_mono_rel [rotated]) (use t in \<open>auto simp add: timeline_order_def\<close>)
  then show "sorted (map tl_created_at out)"
    by (simp add: sorted_map)
qed

theorem timeline_ordered_witness:
  "v_trace_timeline tie_database tie_trace [timeline_columns tie_first, timeline_columns tie_second]
   \<and> mset [timeline_columns tie_first, timeline_columns tie_second] =
       mset (map timeline_columns (filter (\<lambda>l. trace_id l = tie_trace) (sw_event_log tie_database)))
   \<and> sorted (map tl_created_at [timeline_columns tie_first, timeline_columns tie_second])"
proof -
  have "v_trace_timeline tie_database tie_trace [timeline_columns tie_first, timeline_columns tie_second]"
    by (simp add: v_trace_timeline_def order_by_def tie_database_def timeline_order_def timeline_columns_def
        tie_first_def tie_second_def)
  with timeline_ordered [of tie_database tie_trace] show ?thesis by blast
qed

text \<open>
  Claim C4, as stated, fails: with two Events of one trace and one \<open>created_at\<close>, the row
  with the larger id before the row with the smaller id is a result of the timeline query
  (and so is the opposite order).
\<close>

theorem timeline_tie_counterexample:
  "v_trace_timeline tie_database tie_trace [timeline_columns tie_first, timeline_columns tie_second]
   \<and> v_trace_timeline tie_database tie_trace [timeline_columns tie_second, timeline_columns tie_first]
   \<and> tl_created_at (timeline_columns tie_first) = tl_created_at (timeline_columns tie_second)
   \<and> event_id (timeline_columns tie_second) < event_id (timeline_columns tie_first)"
  by (simp add: v_trace_timeline_def order_by_def tie_database_def timeline_order_def timeline_columns_def
      tie_first_def tie_second_def js_def)

text \<open>
  Claim C5. Called at any time with a window of \<open>N\<close> minutes, 15 when the argument is left
  out, the function \<open>sw_event_log_errors_since\<close> has a result, and every result holds
  exactly the Events with \<open>status = error\<close> whose \<open>created_at\<close> is no more than \<open>N\<close> minutes
  before the time of the call (each in the function's columns), in non-increasing order
  of \<open>created_at\<close>. When no Event of the ledger is dated after the call, every row returned
  lies between \<open>N\<close> minutes before the call and the call. The function sets no bound on
  \<open>N\<close>.
\<close>

theorem errors_since_window:
  "(\<exists>out. sw_event_log_errors_since db t arg out)
   \<and> (\<forall>out. sw_event_log_errors_since db t arg out \<longrightarrow>
         mset out = mset (map error_columns
                      (filter (\<lambda>l. status l = js ''error'' \<and>
                                 t - (case arg of None \<Rightarrow> 15 | Some n \<Rightarrow> n) * 60000000 \<le> created_at l)
                         (sw_event_log db)))
         \<and> sorted (rev (map er_created_at out))
         \<and> ((\<forall>l \<in> set (sw_event_log db). created_at l \<le> t) \<longrightarrow>
              (\<forall>r \<in> set out. t - (case arg of None \<Rightarrow> 15 | Some n \<Rightarrow> n) * 60000000 \<le> er_created_at r
                              \<and> er_created_at r \<le> t)))"
proof (intro conjI allI impI)
  let ?n = "case arg of None \<Rightarrow> 15 | Some n \<Rightarrow> n"
  let ?rows = "map error_columns
     (filter (\<lambda>l. status l = js ''error'' \<and> t - minutes_interval ?n \<le> created_at l) (sw_event_log db))"
  have "order_by (\<lambda>a b. er_created_at a \<ge> er_created_at b) ?rows (sort_key (\<lambda>r. - er_created_at r) ?rows)"
    by (rule order_by_exists) auto
  then show "\<exists>out. sw_event_log_errors_since db t arg out"
    unfolding sw_event_log_errors_since_def Let_def by blast
next
  fix out
  let ?n = "case arg of None \<Rightarrow> 15 | Some n \<Rightarrow> n"
  let ?kept = "filter (\<lambda>l. status l = js ''error'' \<and> t - ?n * 60000000 \<le> created_at l) (sw_event_log db)"
  assume "sw_event_log_errors_since db t arg out"
  then have a: "order_by (\<lambda>a b. er_created_at a \<ge> er_created_at b) (map error_columns ?kept) out"
    by (simp add: sw_event_log_errors_since_def minutes_interval_def)
  then show "mset out = mset (map error_columns ?kept)"
    by (simp add: order_by_def)
  from a have "sorted_wrt (\<lambda>a b. er_created_at a \<ge> er_created_at b) out"
    by (simp add: order_by_def)
  then have "sorted_wrt (\<ge>) (map er_created_at out)"
    by (simp add: sorted_wrt_map)
  then show "sorted (rev (map er_created_at out))"
    by (simp add: sorted_wrt_rev)
  assume b: "\<forall>l \<in> set (sw_event_log db). created_at l \<le> t"
  from a have "set out = set (map error_columns ?kept)"
    by (rule order_by_set)
  with b show "\<forall>r \<in> set out. t - ?n * 60000000 \<le> er_created_at r \<and> er_created_at r \<le> t"
    by (auto simp add: error_columns_def)
qed

theorem errors_since_window_witness:
  "sw_event_log_errors_since errors_database sweep_time (Some 15) [error_columns recent_error]
   \<and> sw_event_log_errors_since errors_database sweep_time None [error_columns recent_error]
   \<and> sw_event_log errors_database = [old_error, recent_error]
   \<and> status recent_error = js ''error'' \<and> status old_error = js ''error''
   \<and> created_at recent_error = sweep_time - 10 * 60000000
   \<and> created_at old_error = sweep_time - 20 * 60000000
   \<and> \<not> (\<exists>out. sw_event_log_errors_since errors_database sweep_time (Some 15) out
              \<and> out \<noteq> [error_columns recent_error])"
proof -
  have k: "filter (\<lambda>l. status l = js ''error'' \<and> sweep_time - 900000000 \<le> created_at l)
             (sw_event_log errors_database) = [recent_error]"
    by (simp add: errors_database_def recent_error_def old_error_def example_event_def sweep_time_def)
  have 1: "sw_event_log_errors_since errors_database sweep_time (Some 15) [error_columns recent_error]"
    and 2: "sw_event_log_errors_since errors_database sweep_time None [error_columns recent_error]"
    by (simp_all add: sw_event_log_errors_since_def order_by_def minutes_interval_def k
        del: mset_filter mset_map)
  have 3: "sw_event_log errors_database = [old_error, recent_error]"
    "status recent_error = js ''error''" "status old_error = js ''error''"
    by (simp_all add: errors_database_def recent_error_def old_error_def)
  have 4: "created_at recent_error = sweep_time - 10 * 60000000" "created_at old_error = sweep_time - 20 * 60000000"
    by (simp_all add: recent_error_def old_error_def)
  have "out = [error_columns recent_error]"
    if "sw_event_log_errors_since errors_database sweep_time (Some 15) out" for out
  proof -
    from errors_since_window [of errors_database sweep_time "Some 15"] that
    have "mset out = mset (map error_columns
                      (filter (\<lambda>l. status l = js ''error'' \<and> sweep_time - 900000000 \<le> created_at l)
                         (sw_event_log errors_database)))"
      by (simp del: mset_filter mset_map)
    then have "mset out = mset [error_columns recent_error]"
      by (simp only: k list.map)
    then show ?thesis by simp
  qed
  with 1 2 3 4 show ?thesis by blast
qed

text \<open>
  Claim C9, as amended. A \<open>SELECT\<close> on the ledger fails only for a role without the table
  privilege. With the privilege, the service role and an authenticated caller whose token
  carries the role claim \<open>admin\<close> (at the top level or under \<open>app_metadata\<close>) read every
  row; any other caller reads no row at all, and gets an empty result, not an error. An
  \<open>INSERT\<close> by any role but the service role fails.
\<close>

theorem row_level_security:
  "select_sw_event_log g c db =
     (if \<not> g (role c) SELECT then Inl insufficient_privilege
      else if role c = service_role
              \<or> (role c = authenticated
                  \<and> (claim_role (token c) = Some (js ''admin'') \<or> app_metadata_role (token c) = Some (js ''admin'')))
      then Inr (sw_event_log db)
      else Inr [])
   \<and> (role c \<noteq> service_role \<longrightarrow> (\<exists>e. insert_sw_event_log g c d r db = Inl e))"
  by (simp add: select_sw_event_log_def bypasses_rls_def admin_select_def insert_sw_event_log_def
      service_role_insert_def)

theorem row_level_security_witness:
  "role anonymous \<noteq> service_role
   \<and> insert_sw_event_log (table_grants example_platform) anonymous (column_defaults example_platform)
        (build_row example_body) example_database = Inl insufficient_privilege
   \<and> select_sw_event_log (table_grants example_platform) administrator example_database = Inr [example_event]"
proof -
  have a: "role anonymous \<noteq> service_role" by (simp add: anonymous_def)
  have b: "table_grants example_platform (role administrator) SELECT" by (simp add: example_platform_def)
  have c: "role administrator = authenticated" "app_metadata_role (token administrator) = Some (js ''admin'')"
    by (simp_all add: administrator_def)
  from row_level_security [of "table_grants example_platform" anonymous example_database
      "column_defaults example_platform" "build_row example_body"] a
  obtain e where "insert_sw_event_log (table_grants example_platform) anonymous (column_defaults example_platform)
        (build_row example_body) example_database = Inl e"
    by blast
  then have "insert_sw_event_log (table_grants example_platform) anonymous (column_defaults example_platform)
        (build_row example_body) example_database = Inl insufficient_privilege"
    by (simp add: insert_sw_event_log_def example_platform_def anonymous_def bypasses_rls_def
        service_role_insert_def)
  moreover from row_level_security [of "table_grants example_platform" administrator example_database] b c
  have "select_sw_event_log (table_grants example_platform) administrator example_database = Inr [example_event]"
    by (simp add: example_database_def)
  ultimately show ?thesis using a by blast
qed

text \<open>
  Claim C9, as stated, fails: a caller without any token reads the ledger, which holds a
  row, and gets the empty result, not an error.
\<close>

theorem anonymous_read_counterexample:
  "select_sw_event_log (table_grants example_platform) anonymous example_database = Inr []
   \<and> sw_event_log example_database = [example_event]"
  by (simp add: select_sw_event_log_def example_platform_def anonymous_def bypasses_rls_def admin_select_def
      example_database_def)

section \<open>Properties of the Replay Engine and the Contract Verifier\<close>

lemma find_first_sorted:
  assumes "sorted (map k xs)" and "find P xs = Some x" and "y \<in> set xs" and "P y"
  shows "k x \<le> k y"
proof -
  from assms(2) obtain i where i: "i < length xs" "x = xs ! i" "\<forall>j<i. \<not> P (xs ! j)"
    by (auto simp add: find_Some_iff)
  from assms(3) obtain j where j: "j < length xs" "y = xs ! j"
    by (auto simp add: in_set_conv_nth)
  with i(3) assms(4) have "i \<le> j"
    by (meson not_le_imp_less)
  with assms(1) j(1) have "map k xs ! i \<le> map k xs ! j"
    by (simp add: sorted_iff_nth_mono)
  with i j show ?thesis by simp
qed

lemma set_fetch_timeline: "set (fetch_timeline db t) = {l \<in> set (sw_event_log db). trace_id l = t}"
  by (auto simp add: fetch_timeline_def)

lemma sorted_fetch_timeline: "sorted (map (\<lambda>l. (created_at l, row_id l)) (fetch_timeline db t))"
  by (simp add: fetch_timeline_def)

text \<open>
  Claim C7. For every \<open>trace_id\<close>: when the ledger holds no Event of the trace the Replay
  Engine fails with \<open>NotFoundError\<close>; when it holds Events of the trace but none with a
  non-null \<open>req\<close> it fails with \<open>IncompleteTraceError\<close>; in both cases it makes no outbound
  call. Otherwise it takes the Event that comes first in the timeline ordering
  (\<open>created_at\<close>, then id) among those of the trace with a non-null \<open>req\<close>, builds a request
  with that payload and the same \<open>trace_id\<close>, and dispatches exactly that request, or
  nothing in a dry run.
\<close>

theorem replay_outcomes:
  "((\<forall>l \<in> set (sw_event_log db). trace_id l \<noteq> t) \<longrightarrow>
       replay_engine opts db t = (Inl NotFoundError, []))
   \<and> ((\<exists>l \<in> set (sw_event_log db). trace_id l = t)
        \<and> (\<forall>l \<in> set (sw_event_log db). trace_id l = t \<longrightarrow> req l = JNull) \<longrightarrow>
       replay_engine opts db t = (Inl IncompleteTraceError, []))
   \<and> ((\<exists>l \<in> set (sw_event_log db). trace_id l = t \<and> req l \<noteq> JNull) \<longrightarrow>
       (\<exists>l0 \<in> set (sw_event_log db). trace_id l0 = t \<and> req l0 \<noteq> JNull
          \<and> (\<forall>l \<in> set (sw_event_log db). trace_id l = t \<and> req l \<noteq> JNull \<longrightarrow>
                created_at l0 < created_at l \<or> (created_at l0 = created_at l \<and> row_id l0 \<le> row_id l))
          \<and> fst (replay_engine opts db t) = Inr \<lparr>target = entry_point opts, payload = req l0, ob_trace_id = t\<rparr>
          \<and> snd (replay_engine opts db t) =
               (if dry_run opts then []
                else [\<lparr>target = entry_point opts, payload = req l0, ob_trace_id = t\<rparr>])))"
proof (intro conjI impI)
  assume "\<forall>l \<in> set (sw_event_log db). trace_id l \<noteq> t"
  then have "set (fetch_timeline db t) = {}"
    by (auto simp add: set_fetch_timeline)
  then show "replay_engine opts db t = (Inl NotFoundError, [])"
    by (simp add: replay_engine_def)
next
  assume a: "(\<exists>l \<in> set (sw_event_log db). trace_id l = t)
        \<and> (\<forall>l \<in> set (sw_event_log db). trace_id l = t \<longrightarrow> req l = JNull)"
  then have "set (fetch_timeline db t) \<noteq> {}"
    by (auto simp add: set_fetch_timeline)
  then have 1: "fetch_timeline db t \<noteq> []"
    by auto
  from a have "find (\<lambda>l. req l \<noteq> JNull) (fetch_timeline db t) = None"
    by (auto simp add: find_None_iff set_fetch_timeline)
  with 1 show "replay_engine opts db t = (Inl IncompleteTraceError, [])"
    by (simp add: replay_engine_def)
next
  assume "\<exists>l \<in> set (sw_event_log db). trace_id l = t \<and> req l \<noteq> JNull"
  then obtain l1 where l1: "l1 \<in> set (fetch_timeline db t)" "req l1 \<noteq> JNull"
    by (auto simp add: set_fetch_timeline)
  then have 1: "fetch_timeline db t \<noteq> []"
    by auto
  from l1 have "find (\<lambda>l. req l \<noteq> JNull) (fetch_timeline db t) \<noteq> None"
    by (auto simp add: find_None_iff)
  then obtain l0 where f: "find (\<lambda>l. req l \<noteq> JNull) (fetch_timeline db t) = Some l0"
    by blast
  then have "l0 \<in> set (fetch_timeline db t)" and r: "req l0 \<noteq> JNull"
    by (auto simp add: find_Some_iff)
  with r have 2: "l0 \<in> set (sw_event_log db)" "trace_id l0 = t" "req l0 \<noteq> JNull"
    by (simp_all add: set_fetch_timeline)
  have 3: "created_at l0 < created_at l \<or> (created_at l0 = created_at l \<and> row_id l0 \<le> row_id l)"
    if "l \<in> set (sw_event_log db)" "trace_id l = t \<and> req l \<noteq> JNull" for l
  proof -
    from that have "l \<in> set (fetch_timeline db t)" and "req l \<noteq> JNull"
      by (simp_all add: set_fetch_timeline)
    with find_first_sorted [OF sorted_fetch_timeline f]
    have "(created_at l0, row_id l0) \<le> (created_at l, row_id l)"
      by blast
    then show ?thesis by auto
  qed
  from 1 f have 4: "fst (replay_engine opts db t) = Inr \<lparr>target = entry_point opts, payload = req l0, ob_trace_id = t\<rparr>"
    and 5: "snd (replay_engine opts db t) =
               (if dry_run opts then []
                else [\<lparr>target = entry_point opts, payload = req l0, ob_trace_id = t\<rparr>])"
    by (simp_all add: replay_engine_def)
  from 2 3 4 5 show "\<exists>l0 \<in> set (sw_event_log db). trace_id l0 = t \<and> req l0 \<noteq> JNull
          \<and> (\<forall>l \<in> set (sw_event_log db). trace_id l = t \<and> req l \<noteq> JNull \<longrightarrow>
                created_at l0 < created_at l \<or> (created_at l0 = created_at l \<and> row_id l0 \<le> row_id l))
          \<and> fst (replay_engine opts db t) = Inr \<lparr>target = entry_point opts, payload = req l0, ob_trace_id = t\<rparr>
          \<and> snd (replay_engine opts db t) =
               (if dry_run opts then []
                else [\<lparr>target = entry_point opts, payload = req l0, ob_trace_id = t\<rparr>])"
    by blast
qed

theorem replay_outcomes_witness:
  "sw_event_log example_database = [example_event] \<and> req example_event = JNull
   \<and> replay_engine replay_to_staging example_database (trace_id example_event) = (Inl IncompleteTraceError, [])
   \<and> replay_engine replay_to_staging empty_database tie_trace = (Inl NotFoundError, [])
   \<and> replay_engine replay_to_staging replay_database tie_trace =
        (Inr \<lparr>target = js ''https://staging/webhook'', payload = JObj [(js ''client_id'', JStr (js ''CL001''))],
              ob_trace_id = tie_trace\<rparr>,
         [\<lparr>target = js ''https://staging/webhook'', payload = JObj [(js ''client_id'', JStr (js ''CL001''))],
           ob_trace_id = tie_trace\<rparr>])"
proof -
  have a: "sw_event_log example_database = [example_event]" "req example_event = JNull"
    by (simp_all add: example_database_def example_event_def)
  then have "(\<exists>l \<in> set (sw_event_log example_database). trace_id l = trace_id example_event)
        \<and> (\<forall>l \<in> set (sw_event_log example_database). trace_id l = trace_id example_event \<longrightarrow> req l = JNull)"
    by simp
  with replay_outcomes [of example_database "trace_id example_event" replay_to_staging]
  have b: "replay_engine replay_to_staging example_database (trace_id example_event) = (Inl IncompleteTraceError, [])"
    by blast
  have "\<forall>l \<in> set (sw_event_log empty_database). trace_id l \<noteq> tie_trace"
    by (simp add: empty_database_def)
  with replay_outcomes [of empty_database tie_trace replay_to_staging]
  have c: "replay_engine replay_to_staging empty_database tie_trace = (Inl NotFoundError, [])"
    by blast
  have d: "replay_engine replay_to_staging replay_database tie_trace =
        (Inr \<lparr>target = js ''https://staging/webhook'', payload = JObj [(js ''client_id'', JStr (js ''CL001''))],
              ob_trace_id = tie_trace\<rparr>,
         [\<lparr>target = js ''https://staging/webhook'', payload = JObj [(js ''client_id'', JStr (js ''CL001''))],
           ob_trace_id = tie_trace\<rparr>])"
    by code_simp
  from a b c d show ?thesis by blast
qed

lemma ok_report: "ok (report n b d) = b"
  by (simp add: report_def)

lemma until_first_failure_eq:
  "until_first_failure rs = takeWhile ok rs @ take 1 (dropWhile ok rs)"
  by (induction rs) simp_all

lemma list_all_until_first_failure: "list_all ok (until_first_failure rs) = list_all ok rs"
  by (induction rs) auto

lemma check_nos: "map check_no (all_checks opts a evs) = [1, 2, 3, 4, 5, 6, 7, 8, 9]"
  by (simp add: all_checks_def check_events_exist_def check_one_start_def check_activity_def
      check_one_terminal_def check_error_messages_def check_scan_id_def check_ordering_def
      check_fixture_mode_def check_ingestion_def report_def)

text \<open>
  Claim C8. The terminal-event check passes exactly when the number of Events of the
  trace whose type is \<open>workflow.complete\<close> or \<open>workflow.error\<close> is one. Without fail-fast
  the verifier reports the nine checks, numbered 1 to 9, each with the result of that
  check alone; with fail-fast it reports the checks up to and including the first that
  fails. In both modes the verdict is a pass exactly when every one of the nine checks
  passes.
\<close>

theorem verifier_terminal_check:
  "ok (check_one_terminal evs) =
     (card {i. i < length evs \<and>
               (event_type (evs ! i) = js ''workflow.complete'' \<or> event_type (evs ! i) = js ''workflow.error'')} = 1)
   \<and> (\<not> fail_fast opts \<longrightarrow>
        fst (contract_verifier opts a evs) =
          [check_events_exist evs, check_one_start evs, check_activity opts evs, check_one_terminal evs,
           check_error_messages evs, check_scan_id evs, check_ordering evs, check_fixture_mode opts evs,
           check_ingestion a]
        \<and> map check_no (fst (contract_verifier opts a evs)) = [1, 2, 3, 4, 5, 6, 7, 8, 9])
   \<and> (fail_fast opts \<longrightarrow>
        fst (contract_verifier opts a evs) =
          takeWhile ok (all_checks opts a evs) @ take 1 (dropWhile ok (all_checks opts a evs)))
   \<and> snd (contract_verifier opts a evs) = (\<forall>r \<in> set (all_checks opts a evs). ok r)"
proof (intro conjI impI)
  show "ok (check_one_terminal evs) =
     (card {i. i < length evs \<and>
               (event_type (evs ! i) = js ''workflow.complete'' \<or> event_type (evs ! i) = js ''workflow.error'')} = 1)"
    by (simp add: check_one_terminal_def ok_report length_filter_conv_card terminal_def)
next
  assume "\<not> fail_fast opts"
  then have "fst (contract_verifier opts a evs) = all_checks opts a evs"
    by (simp add: contract_verifier_def Let_def)
  then show "fst (contract_verifier opts a evs) =
          [check_events_exist evs, check_one_start evs, check_activity opts evs, check_one_terminal evs,
           check_error_messages evs, check_scan_id evs, check_ordering evs, check_fixture_mode opts evs,
           check_ingestion a]"
    and "map check_no (fst (contract_verifier opts a evs)) = [1, 2, 3, 4, 5, 6, 7, 8, 9]"
    by (simp_all add: check_nos) (simp add: all_checks_def)
next
  assume "fail_fast opts"
  then show "fst (contract_verifier opts a evs) =
          takeWhile ok (all_checks opts a evs) @ take 1 (dropWhile ok (all_checks opts a evs))"
    by (simp add: contract_verifier_def Let_def until_first_failure_eq)
next
  show "snd (contract_verifier opts a evs) = (\<forall>r \<in> set (all_checks opts a evs). ok r)"
    using list_all_until_first_failure [of "all_checks opts a evs"]
    by (simp add: contract_verifier_def Let_def list_all_iff)
qed

theorem verifier_terminal_check_witness:
  "\<not> fail_fast default_checks
   \<and> map (\<lambda>r. (check_no r, ok r, message r)) (fst (contract_verifier default_checks True [tie_first, tie_second])) =
       [(1, True, Passed), (2, True, Passed), (3, False, No_activity), (4, True, Passed), (5, True, Passed),
        (6, True, Passed), (7, True, Passed), (8, True, Skipped), (9, True, Passed)]
   \<and> \<not> snd (contract_verifier default_checks True [tie_first, tie_second])
   \<and> fail_fast (default_checks\<lparr>fail_fast := True\<rparr>)
   \<and> map check_no (fst (contract_verifier (default_checks\<lparr>fail_fast := True\<rparr>) True [tie_first, tie_second])) = [1, 2, 3]"
proof -
  have a: "\<not> fail_fast default_checks" and b: "fail_fast (default_checks\<lparr>fail_fast := True\<rparr>)"
    by (simp_all add: default_checks_def)
  have c: "map (\<lambda>r. (check_no r, ok r, message r)) (all_checks default_checks True [tie_first, tie_second]) =
       [(1, True, Passed), (2, True, Passed), (3, False, No_activity), (4, True, Passed), (5, True, Passed),
        (6, True, Passed), (7, True, Passed), (8, True, Skipped), (9, True, Passed)]"
    by code_simp
  have d: "map (\<lambda>r. (check_no r, ok r)) (all_checks (default_checks\<lparr>fail_fast := True\<rparr>) True [tie_first, tie_second]) =
       [(1, True), (2, True), (3, False), (4, True), (5, True), (6, True), (7, True), (8, True), (9, True)]"
    by code_simp
  note t1 = verifier_terminal_check [of "[tie_first, tie_second]" default_checks True]
  note t2 = verifier_terminal_check [of "[tie_first, tie_second]" "default_checks\<lparr>fail_fast := True\<rparr>" True]
  from t1 a have 1: "fst (contract_verifier default_checks True [tie_first, tie_second]) =
      all_checks default_checks True [tie_first, tie_second]"
    by (simp add: all_checks_def)
  from t1 have 2: "snd (contract_verifier default_checks True [tie_first, tie_second]) =
      (\<forall>r \<in> set (all_checks default_checks True [tie_first, tie_second]). ok r)"
    by blast
  from c have "map ok (all_checks default_checks True [tie_first, tie_second]) =
      [True, True, False, True, True, True, True, True, True]"
    by (simp add: all_checks_def)
  then have "\<not> (\<forall>r \<in> set (all_checks default_checks True [tie_first, tie_second]). ok r)"
    by (simp add: all_checks_def)
  with 2 have 3: "\<not> snd (contract_verifier default_checks True [tie_first, tie_second])"
    by simp
  from t2 b have "fst (contract_verifier (default_checks\<lparr>fail_fast := True\<rparr>) True [tie_first, tie_second]) =
      takeWhile ok (all_checks (default_checks\<lparr>fail_fast := True\<rparr>) True [tie_first, tie_second])
      @ take 1 (dropWhile ok (all_checks (default_checks\<lparr>fail_fast := True\<rparr>) True [tie_first, tie_second]))"
    by blast
  with d have 4: "map check_no (fst (contract_verifier (default_checks\<lparr>fail_fast := True\<rparr>) True [tie_first, tie_second])) = [1, 2, 3]"
    by (simp add: all_checks_def)
  from a b c 1 3 4 show ?thesis by simp
qed

end
